theory Spec2Isabelle
  imports Complex_Main
begin

section \<open>Session table of server.js\<close>

text \<open>
  The session table \<open>accountData\<close> of server.js maps an account label to a mutable
  session object. The model keeps the table as a map and passes the whole world
  (table, open connections, armed timers, output traces) through every handler.
  Client and timer handles are numbers drawn from two counters. Log entries carry
  the message only: the wall-clock string of \<open>addLog\<close> is left out, and each
  message template of the source is one constructor holding the values the
  template interpolates. The Discord presence line written by
  \<open>discordUpdateActivity\<close> and the read-only routes (\<open>/status\<close>, \<open>/events\<close>,
  \<open>/discord-status\<close> and the \<open>status\<close> slash command) do not touch the session
  table and are left out.
\<close>

datatype status = Connecting | Online | AuthRequired | Error | Offline

record msaData =
  user_code :: string
  verification_uri :: string
  expires_in :: nat

record deviceCode =
  userCode :: string
  verificationUri :: string
  expiresIn :: nat

text \<open>
  An in-game chat message, as the list of its UTF-16 code units: \<open>String.prototype.trim\<close>
  and \<open>slice\<close> work on code units.
\<close>

type_synonym jsString = "nat list"

text \<open>The reason strings built by the four end-of-session handlers.\<close>

datatype reason =
    DisconnectedByServer "string option"
  | ConnectionEnded
  | ConnectionLost
  | ConnectionClosed
  | ErrorReason string

datatype logmsg =
    LogDisconnectedViaDiscord
  | LogDiscordToGame string
  | LogSetViaDiscord bool
  | LogManuallyDisconnected
  | LogYou string
  | LogToggled bool
  | LogTestReconnect
  | LogSetReconnect bool
  | LogSessionEnd bool reason
  | LogReconnectAttempt nat
  | LogStarting
  | LogAuthRequired
  | LogVisit string
  | LogCode string nat
  | LogCreateFailed string
  | LogSpawned
  | LogSentHome
  | LogHomeFailed string
  | LogJoined
  | LogChat jsString
  | LogAutoReconnectIn rat nat

record bot =
  client :: "nat option"
  status :: status
  logs :: "logmsg list"
  autoReconnect :: bool
  reconnectAttempts :: nat
  manualDisconnect :: bool
  deviceCode :: "deviceCode option"
  reconnectTimer :: "nat option"
  disconnectHandled :: bool

datatype snapshot =
  Snapshot string status "logmsg list" bool nat "deviceCode option"

datatype notice =
    NoticeConnecting string
  | NoticeSessionEnd bool string reason bool
  | NoticeAuthRequired string msaData
  | NoticeOnline string
  | NoticeInGame string jsString

text \<open>
  \<open>live\<close> lists the clients returned by \<open>createClient\<close> that have neither been
  closed through \<open>client.disconnect()\<close> nor reported the end of their session;
  \<open>clientEmail\<close> is the \<open>email\<close> captured by the handlers registered on a client.
  \<open>timers\<close> holds the armed \<open>setTimeout\<close> callbacks of \<open>scheduleReconnect\<close>
  that have neither fired nor been cleared, with the captured \<open>email\<close> and the delay.
  \<open>sent\<close> is the trace of \<open>client.queue('text', ...)\<close>, \<open>updates\<close> the trace of
  \<open>globalEmitter.emit('update', ...)\<close>, \<open>notifications\<close> the trace of
  \<open>discordChannel.send\<close>.
\<close>

record world =
  accountData :: "string \<rightharpoonup> bot"
  live :: "nat list"
  clientEmail :: "nat \<rightharpoonup> string"
  nextClient :: nat
  timers :: "nat \<rightharpoonup> (string \<times> rat)"
  nextTimer :: nat
  sent :: "(nat \<times> string) list"
  updates :: "snapshot list"
  discordChannel :: bool
  notifications :: "notice list"

datatype response =
    Success
  | EmailRequired
  | AlreadyActive
  | SessionNotFound
  | BotOffline
  | MustBeOnline
  | ReconnectIs bool
  | Uncaught

definition initWorld :: "bool \<Rightarrow> world" where
  "initWorld ch =
     \<lparr>accountData = Map.empty, live = [], clientEmail = Map.empty, nextClient = 0,
      timers = Map.empty, nextTimer = 0, sent = [], updates = [],
      discordChannel = ch, notifications = []\<rparr>"

text \<open>A write through the \<open>bot\<close> reference: the table entry is updated in place.\<close>

definition updBot :: "world \<Rightarrow> string \<Rightarrow> (bot \<Rightarrow> bot) \<Rightarrow> world" where
  "updBot w email f =
     (case accountData w email of
        None \<Rightarrow> w
      | Some b \<Rightarrow> w\<lparr>accountData := (accountData w)(email \<mapsto> f b)\<rparr>)"

subsection \<open>Helpers: discordNotify, broadcastUpdate, addLog\<close>

definition discordNotify :: "world \<Rightarrow> notice \<Rightarrow> world" where
  "discordNotify w n =
     (if \<not> discordChannel w then w
      else w\<lparr>notifications := notifications w @ [n]\<rparr>)"

text \<open>\<open>logs.slice(-30)\<close>: the last thirty entries.\<close>

definition sliceLast :: "nat \<Rightarrow> 'a list \<Rightarrow> 'a list" where
  "sliceLast k xs = drop (length xs - k) xs"

definition snapshotOf :: "string \<Rightarrow> bot \<Rightarrow> snapshot" where
  "snapshotOf email b =
     Snapshot email (status b) (sliceLast 30 (logs b)) (autoReconnect b)
       (reconnectAttempts b) (deviceCode b)"

definition broadcastUpdate :: "world \<Rightarrow> string \<Rightarrow> world" where
  "broadcastUpdate w email =
     (case accountData w email of
        None \<Rightarrow> w
      | Some b \<Rightarrow> w\<lparr>updates := updates w @ [snapshotOf email b]\<rparr>)"

text \<open>\<open>bot.logs.push(...); if (bot.logs.length > 200) bot.logs.shift();\<close>\<close>

definition pushLog :: "logmsg list \<Rightarrow> logmsg \<Rightarrow> logmsg list" where
  "pushLog ls m = (let ls' = ls @ [m] in if length ls' > 200 then tl ls' else ls')"

definition addLog :: "world \<Rightarrow> string \<Rightarrow> logmsg \<Rightarrow> world" where
  "addLog w email m =
     (case accountData w email of
        None \<Rightarrow> w
      | Some b \<Rightarrow>
          broadcastUpdate (updBot w email (\<lambda>b. b\<lparr>logs := pushLog (logs b) m\<rparr>)) email)"

definition addLogs :: "world \<Rightarrow> string \<Rightarrow> logmsg list \<Rightarrow> world" where
  "addLogs w email ms = foldl (\<lambda>w' m. addLog w' email m) w ms"

subsection \<open>Reconnect scheduler\<close>

text \<open>
  \<open>Math.min(5000 * Math.pow(1.5, Math.min(bot.reconnectAttempts, 12)), 60000)\<close>.
  Every value the expression passes through is a multiple of \<open>1 / 2 ^ 12\<close> whose
  numerator is below \<open>2 ^ 53\<close> (lemma \<open>reconnectDelay_dyadic\<close>), so it is computed
  here over the rationals.
\<close>

definition reconnectDelay :: "nat \<Rightarrow> rat" where
  "reconnectDelay n = min (5000 * (3 / 2) ^ (min n 12)) 60000"

definition clearTimeout :: "world \<Rightarrow> nat option \<Rightarrow> world" where
  "clearTimeout w t =
     (case t of
        None \<Rightarrow> w
      | Some i \<Rightarrow> w\<lparr>timers := (timers w)(i := None)\<rparr>)"

definition setTimeout :: "world \<Rightarrow> string \<Rightarrow> rat \<Rightarrow> nat \<times> world" where
  "setTimeout w email delay =
     (nextTimer w,
      w\<lparr>timers := (timers w)(nextTimer w \<mapsto> (email, delay)), nextTimer := nextTimer w + 1\<rparr>)"

definition scheduleReconnect :: "world \<Rightarrow> string \<Rightarrow> world" where
  "scheduleReconnect w email =
     (case accountData w email of
        None \<Rightarrow> w
      | Some bt \<Rightarrow>
          if manualDisconnect bt \<or> \<not> autoReconnect bt then w
          else
            let delay = reconnectDelay (reconnectAttempts bt);
                w1 = addLog w email (LogAutoReconnectIn delay (reconnectAttempts bt + 1));
                w2 = broadcastUpdate w1 email;
                w3 = clearTimeout w2 (reconnectTimer bt);
                (t, w4) = setTimeout w3 email delay
            in updBot w4 email (\<lambda>b. b\<lparr>reconnectTimer := Some t\<rparr>))"

subsection \<open>handleSessionEnd\<close>

definition handleSessionEnd :: "world \<Rightarrow> string \<Rightarrow> reason \<Rightarrow> bool \<Rightarrow> world" where
  "handleSessionEnd w email reason isError =
     (case accountData w email of
        None \<Rightarrow> w
      | Some bt \<Rightarrow>
          if disconnectHandled bt then w
          else
            let w1 = updBot w email
                       (\<lambda>b. b\<lparr>disconnectHandled := True,
                               status := (if isError then Error else Offline),
                               client := None\<rparr>);
                w2 = addLog w1 email (LogSessionEnd isError reason);
                w3 = broadcastUpdate w2 email;
                w4 = discordNotify w3
                       (NoticeSessionEnd isError email reason
                          (autoReconnect bt \<and> \<not> manualDisconnect bt))
            in if \<not> manualDisconnect bt \<and> autoReconnect bt
               then scheduleReconnect w4 email else w4)"

subsection \<open>startBot and the handlers it registers\<close>

definition newBot :: bot where
  "newBot =
     \<lparr>client = None, status = Connecting, logs = [], autoReconnect = True,
      reconnectAttempts = 0, manualDisconnect = False, deviceCode = None,
      reconnectTimer = None, disconnectHandled = False\<rparr>"

text \<open>
  \<open>createClient\<close> either returns a client or throws; the outcome is the last
  argument (\<open>Some msg\<close> for a throw with \<open>err.message = msg\<close>).
\<close>

definition startBot :: "world \<Rightarrow> string \<Rightarrow> bool \<Rightarrow> string option \<Rightarrow> world" where
  "startBot w email isReconnect thrown =
     (let w0 = (if accountData w email = None
                then w\<lparr>accountData := (accountData w)(email \<mapsto> newBot)\<rparr> else w);
          w1 = updBot w0 email
                 (\<lambda>b. b\<lparr>status := Connecting, deviceCode := None,
                         manualDisconnect := False, disconnectHandled := False\<rparr>);
          w2 = (if isReconnect
                then
                  let w' = updBot w1 email (\<lambda>b. b\<lparr>reconnectAttempts := reconnectAttempts b + 1\<rparr>)
                  in addLog w' email
                       (LogReconnectAttempt
                          (case accountData w' email of None \<Rightarrow> 0 | Some b \<Rightarrow> reconnectAttempts b))
                else
                  discordNotify
                    (addLog (updBot w1 email (\<lambda>b. b\<lparr>reconnectAttempts := 0\<rparr>)) email LogStarting)
                    (NoticeConnecting email));
          w3 = broadcastUpdate w2 email
      in case thrown of
           Some msg \<Rightarrow>
             let w4 = updBot w3 email (\<lambda>b. b\<lparr>status := Error\<rparr>);
                 w5 = addLog w4 email (LogCreateFailed msg);
                 w6 = broadcastUpdate w5 email
             in scheduleReconnect w6 email
         | None \<Rightarrow>
             let c = nextClient w3;
                 w4 = w3\<lparr>live := live w3 @ [c],
                         clientEmail := (clientEmail w3)(c \<mapsto> email),
                         nextClient := c + 1\<rparr>
             in updBot w4 email (\<lambda>b. b\<lparr>client := Some c\<rparr>))"

definition onMsaCode :: "world \<Rightarrow> string \<Rightarrow> msaData \<Rightarrow> world" where
  "onMsaCode w email d =
     (let w1 = updBot w email
                 (\<lambda>b. b\<lparr>deviceCode :=
                            Some \<lparr>userCode = user_code d,
                                  verificationUri = verification_uri d,
                                  expiresIn = expires_in d\<rparr>,
                         status := AuthRequired\<rparr>);
          w2 = addLog w1 email LogAuthRequired;
          w3 = addLog w2 email (LogVisit (verification_uri d));
          w4 = addLog w3 email (LogCode (user_code d) (expires_in d));
          w5 = broadcastUpdate w4 email
      in discordNotify w5 (NoticeAuthRequired email d))"

text \<open>
  The spawn handler; \<open>c\<close> is the client the handler was registered on and
  \<open>queueThrown\<close> the outcome of \<open>client.queue\<close>.
\<close>

definition onSpawn :: "world \<Rightarrow> string \<Rightarrow> nat \<Rightarrow> string option \<Rightarrow> world" where
  "onSpawn w email c queueThrown =
     (let w1 = updBot w email
                 (\<lambda>b. b\<lparr>status := Online, reconnectAttempts := 0,
                         deviceCode := None, disconnectHandled := False\<rparr>);
          w2 = addLog w1 email LogSpawned;
          w3 = broadcastUpdate w2 email;
          w4 = discordNotify w3 (NoticeOnline email)
      in case queueThrown of
           None \<Rightarrow> addLog (w4\<lparr>sent := sent w4 @ [(c, ''/home 1'')]\<rparr>) email LogSentHome
         | Some msg \<Rightarrow> addLog w4 email (LogHomeFailed msg))"

definition onJoin :: "world \<Rightarrow> string \<Rightarrow> world" where
  "onJoin w email = addLog w email LogJoined"

text \<open>
  \<open>msg\<close> is \<open>packet.message || packet.parameters?.join(' ')\<close>, empty when absent;
  \<open>msg.trim()\<close> is empty when every code unit is white space or a line
  terminator of ECMAScript: TAB, LF, VT, FF, CR, SP, NBSP, U+1680, U+2000 to U+200A,
  U+2028, U+2029, U+202F, U+205F, U+3000 and U+FEFF.
\<close>

definition jsBlank :: "nat \<Rightarrow> bool" where
  "jsBlank u =
     (u \<in> set [0x09, 0x0A, 0x0B, 0x0C, 0x0D, 0x20, 0xA0, 0x1680, 0x2028, 0x2029,
                0x202F, 0x205F, 0x3000, 0xFEFF]
      \<or> (0x2000 \<le> u \<and> u \<le> 0x200A))"

definition onText :: "world \<Rightarrow> string \<Rightarrow> jsString \<Rightarrow> world" where
  "onText w email msg =
     (if msg = [] then w
      else
        let w1 = addLog w email (LogChat msg)
        in if discordChannel w1 \<and> \<not> list_all jsBlank msg
           then w1\<lparr>notifications := notifications w1 @ [NoticeInGame email (take 1900 msg)]\<rparr>
           else w1)"

text \<open>
  The four signals that report the end of a session. A disconnect packet carries
  \<open>packet?.message\<close>; an absent or empty message gives the default reason.
\<close>

datatype endSignal =
    DisconnectPacket "string option"
  | EndSig
  | CloseSig bool
  | ErrorSig string

definition endReason :: "endSignal \<Rightarrow> reason" where
  "endReason s =
     (case s of
        DisconnectPacket m \<Rightarrow> DisconnectedByServer (if m = Some [] then None else m)
      | EndSig \<Rightarrow> ConnectionEnded
      | CloseSig hadError \<Rightarrow> (if hadError then ConnectionLost else ConnectionClosed)
      | ErrorSig m \<Rightarrow> ErrorReason m)"

definition endIsError :: "endSignal \<Rightarrow> bool" where
  "endIsError s =
     (case s of
        DisconnectPacket m \<Rightarrow> False
      | EndSig \<Rightarrow> False
      | CloseSig hadError \<Rightarrow> hadError
      | ErrorSig m \<Rightarrow> True)"

definition onEndSignal :: "world \<Rightarrow> string \<Rightarrow> endSignal \<Rightarrow> world" where
  "onEndSignal w email s = handleSessionEnd w email (endReason s) (endIsError s)"

text \<open>The callback armed by \<open>scheduleReconnect\<close>, run when timer \<open>t\<close> fires.\<close>

definition timerCallback :: "world \<Rightarrow> string \<Rightarrow> string option \<Rightarrow> world" where
  "timerCallback w email thrown =
     (case accountData w email of
        None \<Rightarrow> w
      | Some bt \<Rightarrow>
          if \<not> manualDisconnect bt \<and> autoReconnect bt
          then startBot w email True thrown else w)"

definition fireTimer :: "world \<Rightarrow> nat \<Rightarrow> string option \<Rightarrow> world" where
  "fireTimer w t thrown =
     (case timers w t of
        None \<Rightarrow> w
      | Some (email, delay) \<Rightarrow>
          timerCallback (w\<lparr>timers := (timers w)(t := None)\<rparr>) email thrown)"

subsection \<open>Operator commands\<close>

definition isActive :: "status \<Rightarrow> bool" where
  "isActive s = (s \<in> set [Connecting, Online, AuthRequired])"

text \<open>\<open>app.post('/connect')\<close>; an absent or empty \<open>email\<close> is the empty string.\<close>

definition httpConnect :: "world \<Rightarrow> string \<Rightarrow> string option \<Rightarrow> response \<times> world" where
  "httpConnect w email thrown =
     (if email = [] then (EmailRequired, w)
      else
        case accountData w email of
          Some existing \<Rightarrow>
            if isActive (status existing) then (AlreadyActive, w)
            else (Success, startBot w email False thrown)
        | None \<Rightarrow> (Success, startBot w email False thrown))"

text \<open>The \<open>connect\<close> slash command.\<close>

definition discordConnect :: "world \<Rightarrow> string \<Rightarrow> string option \<Rightarrow> response \<times> world" where
  "discordConnect w email thrown =
     (case accountData w email of
        Some existing \<Rightarrow>
          if isActive (status existing) then (AlreadyActive, w)
          else (Success, startBot w email False thrown)
      | None \<Rightarrow> (Success, startBot w email False thrown))"

text \<open>
  \<open>try { bot.client.disconnect(); } catch (_) {}\<close>: a call that returns releases the
  handle; a call that throws is swallowed and leaves it as it was.
\<close>

definition clientDisconnect :: "world \<Rightarrow> nat \<Rightarrow> bool \<Rightarrow> world" where
  "clientDisconnect w c throws =
     (if throws then w else w\<lparr>live := removeAll c (live w)\<rparr>)"

definition closeClient :: "world \<Rightarrow> string \<Rightarrow> bool \<Rightarrow> world" where
  "closeClient w email throws =
     (case accountData w email of
        None \<Rightarrow> w
      | Some bt \<Rightarrow>
          (case client bt of
             None \<Rightarrow> w
           | Some c \<Rightarrow> updBot (clientDisconnect w c throws) email (\<lambda>b. b\<lparr>client := None\<rparr>)))"

text \<open>\<open>app.post('/disconnect')\<close>\<close>

definition httpDisconnect :: "world \<Rightarrow> string \<Rightarrow> bool \<Rightarrow> response \<times> world" where
  "httpDisconnect w email throws =
     (case accountData w email of
        None \<Rightarrow> (SessionNotFound, w)
      | Some bt \<Rightarrow>
          let w1 = updBot w email
                     (\<lambda>b. b\<lparr>manualDisconnect := True, disconnectHandled := True,
                             autoReconnect := False\<rparr>);
              w2 = clearTimeout w1 (reconnectTimer bt);
              w3 = updBot w2 email (\<lambda>b. b\<lparr>reconnectTimer := None\<rparr>);
              w4 = closeClient w3 email throws;
              w5 = updBot w4 email (\<lambda>b. b\<lparr>status := Offline\<rparr>);
              w6 = addLog w5 email LogManuallyDisconnected
          in (Success, broadcastUpdate w6 email))"

text \<open>The \<open>disconnect\<close> slash command.\<close>

definition discordDisconnect :: "world \<Rightarrow> string \<Rightarrow> bool \<Rightarrow> response \<times> world" where
  "discordDisconnect w email throws =
     (case accountData w email of
        None \<Rightarrow> (SessionNotFound, w)
      | Some bt \<Rightarrow>
          let w1 = updBot w email
                     (\<lambda>b. b\<lparr>manualDisconnect := True, disconnectHandled := True,
                             autoReconnect := False\<rparr>);
              w2 = clearTimeout w1 (reconnectTimer bt);
              w3 = closeClient w2 email throws;
              w4 = updBot w3 email (\<lambda>b. b\<lparr>status := Offline\<rparr>);
              w5 = addLog w4 email LogDisconnectedViaDiscord
          in (Success, broadcastUpdate w5 email))"

text \<open>\<open>app.post('/set-reconnect')\<close>; \<open>enabled\<close> is \<open>!!enabled\<close>.\<close>

definition httpSetReconnect :: "world \<Rightarrow> string \<Rightarrow> bool \<Rightarrow> response \<times> world" where
  "httpSetReconnect w email enabled =
     (case accountData w email of
        None \<Rightarrow> (SessionNotFound, w)
      | Some bt \<Rightarrow>
          let w1 = updBot w email (\<lambda>b. b\<lparr>autoReconnect := enabled\<rparr>);
              w2 = addLog w1 email (LogSetReconnect enabled)
          in (ReconnectIs enabled, broadcastUpdate w2 email))"

text \<open>\<open>app.post('/toggle-reconnect')\<close>\<close>

definition httpToggleReconnect :: "world \<Rightarrow> string \<Rightarrow> response \<times> world" where
  "httpToggleReconnect w email =
     (case accountData w email of
        None \<Rightarrow> (SessionNotFound, w)
      | Some bt \<Rightarrow>
          let w1 = updBot w email (\<lambda>b. b\<lparr>autoReconnect := \<not> autoReconnect b\<rparr>);
              w2 = addLog w1 email (LogToggled (\<not> autoReconnect bt))
          in (ReconnectIs (\<not> autoReconnect bt), broadcastUpdate w2 email))"

text \<open>The \<open>reconnect\<close> slash command.\<close>

definition discordReconnect :: "world \<Rightarrow> string \<Rightarrow> bool \<Rightarrow> response \<times> world" where
  "discordReconnect w email enabled =
     (case accountData w email of
        None \<Rightarrow> (SessionNotFound, w)
      | Some bt \<Rightarrow>
          let w1 = updBot w email (\<lambda>b. b\<lparr>autoReconnect := enabled\<rparr>);
              w2 = addLog w1 email (LogSetViaDiscord enabled)
          in (ReconnectIs enabled, broadcastUpdate w2 email))"

text \<open>
  \<open>app.get('/chat')\<close> and the \<open>chat\<close> slash command: the packet is queued on
  \<open>bot.client\<close> when the session is online. Neither handler catches a throw of
  \<open>client.queue\<close> (\<open>queueThrows\<close>): the handler then ends before \<open>addLog\<close> and before
  its answer, and nothing has been written.
\<close>

definition chat ::
  "world \<Rightarrow> string \<Rightarrow> string \<Rightarrow> logmsg \<Rightarrow> bool \<Rightarrow> response \<times> world" where
  "chat w email message entry queueThrows =
     (case accountData w email of
        None \<Rightarrow> (BotOffline, w)
      | Some bt \<Rightarrow>
          (case client bt of
             None \<Rightarrow> (BotOffline, w)
           | Some c \<Rightarrow>
               if status bt = Online
               then
                 if queueThrows then (Uncaught, w)
                 else (Success, addLog (w\<lparr>sent := sent w @ [(c, message)]\<rparr>) email entry)
               else (BotOffline, w)))"

definition httpChat :: "world \<Rightarrow> string \<Rightarrow> string \<Rightarrow> bool \<Rightarrow> response \<times> world" where
  "httpChat w email message queueThrows = chat w email message (LogYou message) queueThrows"

definition discordChat :: "world \<Rightarrow> string \<Rightarrow> string \<Rightarrow> bool \<Rightarrow> response \<times> world" where
  "discordChat w email message queueThrows =
     chat w email message (LogDiscordToGame message) queueThrows"

text \<open>\<open>app.post('/test-reconnect')\<close>\<close>

definition httpTestReconnect :: "world \<Rightarrow> string \<Rightarrow> bool \<Rightarrow> response \<times> world" where
  "httpTestReconnect w email throws =
     (case accountData w email of
        None \<Rightarrow> (SessionNotFound, w)
      | Some bt \<Rightarrow>
          (case client bt of
             None \<Rightarrow> (MustBeOnline, w)
           | Some c \<Rightarrow>
               if status bt \<noteq> Online then (MustBeOnline, w)
               else
                 let w1 = addLog w email LogTestReconnect;
                     w2 = broadcastUpdate w1 email
                 in (Success, clientDisconnect w2 c throws)))"

subsection \<open>The event loop\<close>

text \<open>
  One turn of the event loop: an operator command, a timer firing, or an event
  emitted by a client that \<open>startBot\<close> created (its handlers run with the \<open>email\<close>
  they captured). A client that reports the end of its session is no longer live.
\<close>

datatype event =
    HttpConnect string "string option"
  | DiscordConnect string "string option"
  | HttpDisconnect string bool
  | DiscordDisconnect string bool
  | HttpSetReconnect string bool
  | HttpToggleReconnect string
  | DiscordReconnect string bool
  | HttpChat string string bool
  | DiscordChat string string bool
  | HttpTestReconnect string bool
  | TimerFires nat "string option"
  | MsaCode nat msaData
  | Spawn nat "string option"
  | Join nat
  | TextPacket nat jsString
  | EndOfSession nat endSignal

definition clientEvent :: "world \<Rightarrow> nat \<Rightarrow> (string \<Rightarrow> world) \<Rightarrow> world" where
  "clientEvent w c handler =
     (case clientEmail w c of None \<Rightarrow> w | Some email \<Rightarrow> handler email)"

fun step :: "world \<Rightarrow> event \<Rightarrow> world" where
  "step w (HttpConnect email thrown) = snd (httpConnect w email thrown)"
| "step w (DiscordConnect email thrown) = snd (discordConnect w email thrown)"
| "step w (HttpDisconnect email throws) = snd (httpDisconnect w email throws)"
| "step w (DiscordDisconnect email throws) = snd (discordDisconnect w email throws)"
| "step w (HttpSetReconnect email enabled) = snd (httpSetReconnect w email enabled)"
| "step w (HttpToggleReconnect email) = snd (httpToggleReconnect w email)"
| "step w (DiscordReconnect email enabled) = snd (discordReconnect w email enabled)"
| "step w (HttpChat email message queueThrows) = snd (httpChat w email message queueThrows)"
| "step w (DiscordChat email message queueThrows) =
     snd (discordChat w email message queueThrows)"
| "step w (HttpTestReconnect email throws) = snd (httpTestReconnect w email throws)"
| "step w (TimerFires t thrown) = fireTimer w t thrown"
| "step w (MsaCode c d) = clientEvent w c (\<lambda>email. onMsaCode w email d)"
| "step w (Spawn c queueThrown) = clientEvent w c (\<lambda>email. onSpawn w email c queueThrown)"
| "step w (Join c) = clientEvent w c (\<lambda>email. onJoin w email)"
| "step w (TextPacket c msg) = clientEvent w c (\<lambda>email. onText w email msg)"
| "step w (EndOfSession c s) =
     clientEvent w c (\<lambda>email. onEndSignal (w\<lparr>live := removeAll c (live w)\<rparr>) email s)"

definition run :: "world \<Rightarrow> event list \<Rightarrow> world" where
  "run w evs = foldl step w evs"

text \<open>The live clients whose handlers act on account \<open>email\<close>.\<close>

definition liveFor :: "world \<Rightarrow> string \<Rightarrow> nat list" where
  "liveFor w email = filter (\<lambda>c. clientEmail w c = Some email) (live w)"

subsection \<open>Observations\<close>

definition logsOf :: "world \<Rightarrow> string \<Rightarrow> logmsg list" where
  "logsOf w email = (case accountData w email of None \<Rightarrow> [] | Some b \<Rightarrow> logs b)"

text \<open>The delay of the timer that \<open>bot.reconnectTimer\<close> refers to, while it is armed.\<close>

definition armedDelay :: "world \<Rightarrow> string \<Rightarrow> rat option" where
  "armedDelay w email =
     (case accountData w email of
        None \<Rightarrow> None
      | Some b \<Rightarrow>
          (case reconnectTimer b of
             None \<Rightarrow> None
           | Some t \<Rightarrow> map_option snd (timers w t)))"

text \<open>A world whose table holds the one session \<open>b\<close>, and nothing else.\<close>

definition oneSession :: "string \<Rightarrow> bot \<Rightarrow> world" where
  "oneSession email b = (initWorld False)\<lparr>accountData := [email \<mapsto> b]\<rparr>"

definition attempt :: "nat \<Rightarrow> bot" where
  "attempt n = newBot\<lparr>reconnectAttempts := n\<rparr>"

text \<open>
  Two runs from the empty table: a session that has spawned, and the same session
  after the server closed the connection.
\<close>

definition onlineSession :: world where
  "onlineSession = run (initWorld False) [HttpConnect ''a'' None, Spawn 0 None]"

definition droppedSession :: world where
  "droppedSession =
     run (initWorld False)
       [HttpConnect ''a'' None, Spawn 0 None, EndOfSession 0 (CloseSig False)]"

text \<open>
  A session whose client 0 was closed by the server and whose reconnect timer has
  fired and created client 1.
\<close>

definition restartedSession :: world where
  "restartedSession =
     run (initWorld False)
       [HttpConnect ''a'' None, EndOfSession 0 (CloseSig False), TimerFires 0 None]"

text \<open>No session holds more than 200 log entries.\<close>

definition logsBounded :: "world \<Rightarrow> bool" where
  "logsBounded w = (\<forall>e b. accountData w e = Some b \<longrightarrow> length (logs b) \<le> 200)"

text \<open>
  Every armed timer belongs to the session whose \<open>reconnectTimer\<close> refers to it.
\<close>

definition timersOwned :: "world \<Rightarrow> bool" where
  "timersOwned w =
     (\<forall>t e d. timers w t = Some (e, d) \<longrightarrow>
        (\<exists>b. accountData w e = Some b \<and> reconnectTimer b = Some t))"

text \<open>\<open>w'\<close> has the armed timers of \<open>w\<close> and every session keeps its \<open>reconnectTimer\<close>.\<close>

definition keepsTimers :: "world \<Rightarrow> world \<Rightarrow> bool" where
  "keepsTimers w w' =
     (timers w' = timers w \<and>
      (\<forall>e b. accountData w e = Some b \<longrightarrow>
         (\<exists>b'. accountData w' e = Some b' \<and> reconnectTimer b' = reconnectTimer b)))"

text \<open>
  The session \<open>startBot\<close> works on, and that session after the writes and the log
  entry that precede \<open>createClient\<close>.
\<close>

definition sessionOrNew :: "world \<Rightarrow> string \<Rightarrow> bot" where
  "sessionOrNew w email = (case accountData w email of None \<Rightarrow> newBot | Some b \<Rightarrow> b)"

definition startingBot :: "bot \<Rightarrow> bool \<Rightarrow> bot" where
  "startingBot b isReconnect =
     b\<lparr>status := Connecting, deviceCode := None, manualDisconnect := False,
       disconnectHandled := False,
       reconnectAttempts := (if isReconnect then reconnectAttempts b + 1 else 0),
       logs := pushLog (logs b)
                 (if isReconnect then LogReconnectAttempt (reconnectAttempts b + 1)
                  else LogStarting)\<rparr>"

text \<open>The notifications after \<open>discordNotify\<close>, which sends only when a channel is set.\<close>

definition sendIf :: "bool \<Rightarrow> notice list \<Rightarrow> notice \<Rightarrow> notice list" where
  "sendIf ch ns n = (if ch then ns @ [n] else ns)"

text \<open>The fields both disconnect commands write, and the live clients they leave.\<close>

definition stoppedBot :: "bot \<Rightarrow> logmsg \<Rightarrow> bot" where
  "stoppedBot b m =
     b\<lparr>manualDisconnect := True, disconnectHandled := True, autoReconnect := False,
       client := None, status := Offline, logs := pushLog (logs b) m\<rparr>"

definition liveAfterClose :: "world \<Rightarrow> bot \<Rightarrow> bool \<Rightarrow> nat list" where
  "liveAfterClose w b throws =
     (case client b of
        None \<Rightarrow> live w
      | Some c \<Rightarrow> if throws then live w else removeAll c (live w))"

text \<open>
  \<open>reconnectTimer\<close> refers to a timer of the account that is still armed, and the
  predicate of the data model: a pending reconnect timer only in state Offline or
  Error, with auto-reconnect on and no manual stop requested.
\<close>

definition timerPending :: "world \<Rightarrow> string \<Rightarrow> bool" where
  "timerPending w email =
     (case accountData w email of
        None \<Rightarrow> False
      | Some b \<Rightarrow>
          (case reconnectTimer b of
             None \<Rightarrow> False
           | Some t \<Rightarrow> map_option fst (timers w t) = Some email))"

definition timerInv :: "world \<Rightarrow> string \<Rightarrow> bool" where
  "timerInv w email =
     (timerPending w email \<longrightarrow>
        (case accountData w email of
           None \<Rightarrow> False
         | Some b \<Rightarrow>
             (status b = Offline \<or> status b = Error) \<and> autoReconnect b \<and> \<not> manualDisconnect b))"

section \<open>Basic facts about the handlers\<close>

lemma updBot_Some:
  "accountData w email = Some b \<Longrightarrow>
   updBot w email f = w\<lparr>accountData := (accountData w)(email \<mapsto> f b)\<rparr>"
  by (simp add: updBot_def)

lemma updBot_None: "accountData w email = None \<Longrightarrow> updBot w email f = w"
  by (simp add: updBot_def)

lemma broadcastUpdate_Some:
  "accountData w email = Some b \<Longrightarrow>
   broadcastUpdate w email = w\<lparr>updates := updates w @ [snapshotOf email b]\<rparr>"
  by (simp add: broadcastUpdate_def)

lemma addLog_Some:
  "accountData w email = Some b \<Longrightarrow>
   addLog w email m =
     w\<lparr>accountData := (accountData w)(email \<mapsto> b\<lparr>logs := pushLog (logs b) m\<rparr>),
       updates := updates w @ [snapshotOf email (b\<lparr>logs := pushLog (logs b) m\<rparr>)]\<rparr>"
  by (simp add: addLog_def updBot_def broadcastUpdate_def)

lemma addLog_None: "accountData w email = None \<Longrightarrow> addLog w email m = w"
  by (simp add: addLog_def)

lemma broadcastUpdate_None: "accountData w email = None \<Longrightarrow> broadcastUpdate w email = w"
  by (simp add: broadcastUpdate_def)

lemma discordNotify_upd:
  "discordNotify w n = w\<lparr>notifications := sendIf (discordChannel w) (notifications w) n\<rparr>"
  by (cases w) (simp add: discordNotify_def sendIf_def)

lemma discordNotify_fields:
  "accountData (discordNotify w n) = accountData w"
  "timers (discordNotify w n) = timers w"
  "nextTimer (discordNotify w n) = nextTimer w"
  "live (discordNotify w n) = live w"
  "updates (discordNotify w n) = updates w"
  by (simp_all add: discordNotify_def)

text \<open>
  With these rules a handler applied to a world that holds the session rewrites to
  one record update of that world.
\<close>

lemmas flat = Let_def updBot_Some addLog_Some broadcastUpdate_Some discordNotify_upd

lemmas absent = updBot_None addLog_None broadcastUpdate_None

subsection \<open>The bounded log\<close>

lemma pushLog_length: "length ls \<le> 200 \<Longrightarrow> length (pushLog ls m) \<le> 200"
  by (simp add: pushLog_def Let_def)

lemma pushLog_sliceLast:
  assumes "length ls \<le> 200"
  shows "pushLog ls m = sliceLast 200 (ls @ [m])"
proof (cases "length ls = 200")
  case True
  then show ?thesis
    by (cases ls) (simp_all add: pushLog_def sliceLast_def Let_def drop_Suc)
next
  case False
  with assms show ?thesis by (simp add: pushLog_def sliceLast_def Let_def)
qed

lemma sliceLast_append:
  "sliceLast k (sliceLast k xs @ ys) = sliceLast k (xs @ ys)"
proof (cases "length xs \<le> k")
  case True
  then show ?thesis by (simp add: sliceLast_def)
next
  case False
  then show ?thesis by (simp add: sliceLast_def add.commute)
qed

lemma foldl_pushLog:
  "length ls \<le> 200 \<Longrightarrow> foldl pushLog ls ms = sliceLast 200 (ls @ ms)"
proof (induction ms arbitrary: ls)
  case Nil
  then show ?case by (simp add: sliceLast_def)
next
  case (Cons m ms)
  have "foldl pushLog (pushLog ls m) ms = sliceLast 200 (pushLog ls m @ ms)"
    using Cons.prems by (intro Cons.IH pushLog_length)
  also have "\<dots> = sliceLast 200 (ls @ m # ms)"
    using Cons.prems sliceLast_append [of 200 "ls @ [m]" ms]
    by (simp add: pushLog_sliceLast)
  finally show ?case by simp
qed

lemma logsOf_addLog:
  "logsOf (addLog w email m) email =
     (case accountData w email of None \<Rightarrow> [] | Some b \<Rightarrow> pushLog (logs b) m)"
  by (auto simp: logsOf_def addLog_Some addLog_None split: option.splits)

lemma accountData_addLog_dom:
  "(accountData (addLog w email m) e = None) = (accountData w e = None)"
  by (cases "accountData w email") (auto simp: addLog_Some addLog_None)

lemma logsOf_addLogs:
  "accountData w email \<noteq> None \<Longrightarrow>
   logsOf (addLogs w email ms) email = foldl pushLog (logsOf w email) ms"
proof (induction ms arbitrary: w)
  case Nil
  then show ?case by (simp add: addLogs_def)
next
  case (Cons m ms)
  have "accountData (addLog w email m) email \<noteq> None"
    using Cons.prems by (simp add: accountData_addLog_dom)
  from Cons.IH [OF this] show ?case
    using Cons.prems by (auto simp: addLogs_def logsOf_addLog) (simp add: logsOf_def)
qed

subsection \<open>The scheduler\<close>

lemma reconnectDelay_values:
  "reconnectDelay 0 = 5000" "reconnectDelay 1 = 7500" "reconnectDelay 2 = 11250"
  by (simp_all add: reconnectDelay_def power2_eq_square)

lemma reconnectDelay_cap: "12 \<le> n \<Longrightarrow> reconnectDelay n = 60000"
  by (simp add: reconnectDelay_def min_absorb2 power_divide)

lemma reconnectDelay_dyadic:
  assumes "k \<le> 12"
  shows "(3 / 2 :: rat) ^ k = of_nat (3 ^ k * 2 ^ (12 - k)) / 2 ^ 12
       \<and> 5000 * (3 / 2 :: rat) ^ k = of_nat (5000 * 3 ^ k * 2 ^ (12 - k)) / 2 ^ 12
       \<and> 5000 * 3 ^ k * 2 ^ (12 - k) < (2 :: nat) ^ 53"
proof -
  from assms consider "k = 0" | "k = 1" | "k = 2" | "k = 3" | "k = 4" | "k = 5" | "k = 6"
    | "k = 7" | "k = 8" | "k = 9" | "k = 10" | "k = 11" | "k = 12"
    by atomize_elim arith
  then show ?thesis
    by cases (simp_all add: power_divide)
qed

lemma scheduleReconnect_arms:
  assumes "accountData w email = Some b" and "\<not> manualDisconnect b" and "autoReconnect b"
  shows "scheduleReconnect w email =
     (let b1 = b\<lparr>logs := pushLog (logs b)
                  (LogAutoReconnectIn (reconnectDelay (reconnectAttempts b))
                     (reconnectAttempts b + 1))\<rparr>
      in w\<lparr>accountData := (accountData w)(email \<mapsto> b1\<lparr>reconnectTimer := Some (nextTimer w)\<rparr>),
           updates := updates w @ [snapshotOf email b1, snapshotOf email b1],
           timers := (timers (clearTimeout w (reconnectTimer b)))
                       (nextTimer w \<mapsto> (email, reconnectDelay (reconnectAttempts b))),
           nextTimer := nextTimer w + 1\<rparr>)"
  using assms
  by (cases "reconnectTimer b")
     (simp_all add: scheduleReconnect_def Let_def addLog_Some broadcastUpdate_Some
        clearTimeout_def setTimeout_def updBot_Some)

lemma scheduleReconnect_skips:
  "accountData w email = Some b \<Longrightarrow> manualDisconnect b \<or> \<not> autoReconnect b \<Longrightarrow>
   scheduleReconnect w email = w"
  by (auto simp: scheduleReconnect_def)

subsection \<open>Spawn, auth challenge and start\<close>

lemma startBot_opened:
  "startBot w email r None =
     (let b3 = startingBot (sessionOrNew w email) r
      in w\<lparr>accountData := (accountData w)(email \<mapsto> b3\<lparr>client := Some (nextClient w)\<rparr>),
           live := live w @ [nextClient w],
           clientEmail := (clientEmail w)(nextClient w \<mapsto> email),
           nextClient := nextClient w + 1,
           updates := updates w @ [snapshotOf email b3, snapshotOf email b3],
           notifications :=
             (if r then notifications w
              else sendIf (discordChannel w) (notifications w) (NoticeConnecting email))\<rparr>)"
  by (cases w; cases "accountData w email"; cases r)
     (simp_all add: startBot_def startingBot_def sessionOrNew_def flat)

lemma startBot_thrown:
  "startBot w email r (Some msg) =
     (let b3 = startingBot (sessionOrNew w email) r;
          b5 = b3\<lparr>status := Error, logs := pushLog (logs b3) (LogCreateFailed msg)\<rparr>
      in scheduleReconnect
           (w\<lparr>accountData := (accountData w)(email \<mapsto> b5),
              updates := updates w @
                [snapshotOf email b3, snapshotOf email b3, snapshotOf email b5, snapshotOf email b5],
              notifications :=
                (if r then notifications w
                 else sendIf (discordChannel w) (notifications w) (NoticeConnecting email))\<rparr>)
           email)"
  by (cases w; cases "accountData w email"; cases r)
     (simp_all add: startBot_def startingBot_def sessionOrNew_def flat)

lemma onSpawn_record:
  assumes "accountData w email = Some b"
  shows "accountData (onSpawn w email c q) email =
     Some (b\<lparr>status := Online, reconnectAttempts := 0, deviceCode := None,
             disconnectHandled := False,
             logs := pushLog (pushLog (logs b) LogSpawned)
                       (case q of None \<Rightarrow> LogSentHome | Some msg \<Rightarrow> LogHomeFailed msg)\<rparr>)"
  using assms by (cases q) (simp_all add: onSpawn_def flat)

lemma onSpawn_sent:
  assumes "accountData w email = Some b"
  shows "sent (onSpawn w email c q) =
     (case q of None \<Rightarrow> sent w @ [(c, ''/home 1'')] | Some msg \<Rightarrow> sent w)"
  using assms by (cases q) (simp_all add: onSpawn_def flat)

lemma onSpawn_flat:
  assumes "accountData w email = Some b"
  shows "onSpawn w email c None =
     (let b1 = b\<lparr>status := Online, reconnectAttempts := 0, deviceCode := None,
                 disconnectHandled := False, logs := pushLog (logs b) LogSpawned\<rparr>;
          b2 = b1\<lparr>logs := pushLog (logs b1) LogSentHome\<rparr>
      in w\<lparr>accountData := (accountData w)(email \<mapsto> b2),
           updates := updates w @ [snapshotOf email b1, snapshotOf email b1, snapshotOf email b2],
           notifications := sendIf (discordChannel w) (notifications w) (NoticeOnline email),
           sent := sent w @ [(c, ''/home 1'')]\<rparr>)"
  using assms by (simp add: onSpawn_def flat)

lemma onMsaCode_record:
  assumes "accountData w email = Some b"
  shows "accountData (onMsaCode w email d) email =
     Some (b\<lparr>deviceCode := Some \<lparr>userCode = user_code d, verificationUri = verification_uri d,
                                  expiresIn = expires_in d\<rparr>,
             status := AuthRequired,
             logs := pushLog (pushLog (pushLog (logs b) LogAuthRequired)
                       (LogVisit (verification_uri d))) (LogCode (user_code d) (expires_in d))\<rparr>)"
  using assms by (simp add: onMsaCode_def flat)

lemma onMsaCode_clientEmail: "clientEmail (onMsaCode w email d) = clientEmail w"
  by (cases "accountData w email") (simp_all add: onMsaCode_def flat absent)

lemma startBot_created:
  "\<exists>b. accountData (startBot w email r None) email = Some b
       \<and> client b = Some (nextClient w) \<and> status b = Connecting
       \<and> deviceCode b = None \<and> \<not> manualDisconnect b \<and> \<not> disconnectHandled b"
  by (simp add: startBot_opened Let_def startingBot_def)

lemma startBot_clientEmail:
  "clientEmail (startBot w email r None) = (clientEmail w)(nextClient w \<mapsto> email)"
  by (simp add: startBot_opened Let_def)

subsection \<open>Auto-reconnect switches and timers\<close>

lemma setReconnect_world:
  assumes "accountData w email = Some b"
  shows "snd (httpSetReconnect w email en) =
           w\<lparr>accountData := (accountData w)(email \<mapsto>
                 b\<lparr>autoReconnect := en, logs := pushLog (logs b) (LogSetReconnect en)\<rparr>),
             updates := updates w @
                 [snapshotOf email (b\<lparr>autoReconnect := en, logs := pushLog (logs b) (LogSetReconnect en)\<rparr>),
                  snapshotOf email (b\<lparr>autoReconnect := en, logs := pushLog (logs b) (LogSetReconnect en)\<rparr>)]\<rparr>"
  using assms by (simp add: httpSetReconnect_def flat)

lemma discordReconnect_world:
  assumes "accountData w email = Some b"
  shows "snd (discordReconnect w email en) =
           w\<lparr>accountData := (accountData w)(email \<mapsto>
                 b\<lparr>autoReconnect := en, logs := pushLog (logs b) (LogSetViaDiscord en)\<rparr>),
             updates := updates w @
                 [snapshotOf email (b\<lparr>autoReconnect := en, logs := pushLog (logs b) (LogSetViaDiscord en)\<rparr>),
                  snapshotOf email (b\<lparr>autoReconnect := en, logs := pushLog (logs b) (LogSetViaDiscord en)\<rparr>)]\<rparr>"
  using assms by (simp add: discordReconnect_def flat)

lemma toggleReconnect_world:
  assumes "accountData w email = Some b"
  shows "snd (httpToggleReconnect w email) =
           w\<lparr>accountData := (accountData w)(email \<mapsto>
                 b\<lparr>autoReconnect := \<not> autoReconnect b,
                   logs := pushLog (logs b) (LogToggled (\<not> autoReconnect b))\<rparr>),
             updates := updates w @
                 [snapshotOf email (b\<lparr>autoReconnect := \<not> autoReconnect b,
                     logs := pushLog (logs b) (LogToggled (\<not> autoReconnect b))\<rparr>),
                  snapshotOf email (b\<lparr>autoReconnect := \<not> autoReconnect b,
                     logs := pushLog (logs b) (LogToggled (\<not> autoReconnect b))\<rparr>)]\<rparr>"
  using assms by (simp add: httpToggleReconnect_def flat)

lemma fireTimer_disabled:
  assumes "accountData w email = Some b" and "timers w t = Some (email, d)"
    and "manualDisconnect b \<or> \<not> autoReconnect b"
  shows "fireTimer w t thrown = w\<lparr>timers := (timers w)(t := None)\<rparr>"
  using assms by (auto simp: fireTimer_def timerCallback_def)

subsection \<open>End of session\<close>

lemma handleSessionEnd_handled:
  "accountData w email = Some b \<Longrightarrow> disconnectHandled b \<Longrightarrow>
   handleSessionEnd w email r e = w"
  by (simp add: handleSessionEnd_def)

lemma handleSessionEnd_first:
  assumes "accountData w email = Some b" and "\<not> disconnectHandled b"
  shows "handleSessionEnd w email r e =
     (let b1 = b\<lparr>disconnectHandled := True, status := (if e then Error else Offline),
                 client := None, logs := pushLog (logs b) (LogSessionEnd e r)\<rparr>;
          w1 = discordNotify
                 (w\<lparr>accountData := (accountData w)(email \<mapsto> b1),
                    updates := updates w @ [snapshotOf email b1, snapshotOf email b1]\<rparr>)
                 (NoticeSessionEnd e email r (autoReconnect b \<and> \<not> manualDisconnect b))
      in if \<not> manualDisconnect b \<and> autoReconnect b then scheduleReconnect w1 email else w1)"
  using assms
  by (simp add: handleSessionEnd_def Let_def updBot_Some addLog_Some broadcastUpdate_Some)

lemma handleSessionEnd_flat:
  assumes "accountData w email = Some b" and "\<not> disconnectHandled b"
  shows "handleSessionEnd w email r e =
     (let b1 = b\<lparr>disconnectHandled := True, status := (if e then Error else Offline),
                 client := None, logs := pushLog (logs b) (LogSessionEnd e r)\<rparr>;
          w1 = w\<lparr>accountData := (accountData w)(email \<mapsto> b1),
                 updates := updates w @ [snapshotOf email b1, snapshotOf email b1],
                 notifications := sendIf (discordChannel w) (notifications w)
                   (NoticeSessionEnd e email r (autoReconnect b \<and> \<not> manualDisconnect b))\<rparr>
      in if \<not> manualDisconnect b \<and> autoReconnect b then scheduleReconnect w1 email else w1)"
  unfolding handleSessionEnd_first [OF assms] by (simp add: Let_def discordNotify_upd)

subsection \<open>Ownership of armed timers\<close>

lemma timersOwned_keeps: "timersOwned w \<Longrightarrow> keepsTimers w w' \<Longrightarrow> timersOwned w'"
  unfolding timersOwned_def keepsTimers_def by metis

lemma keepsTimers_addLog: "keepsTimers w (addLog w email m)"
  by (cases "accountData w email") (auto simp: keepsTimers_def flat absent)

lemma keepsTimers_onSpawn: "keepsTimers w (onSpawn w email c q)"
  by (cases "accountData w email"; cases q) (auto simp: keepsTimers_def onSpawn_def flat absent)

lemma keepsTimers_onMsaCode: "keepsTimers w (onMsaCode w email d)"
  by (cases "accountData w email") (auto simp: keepsTimers_def onMsaCode_def flat absent)

lemma keepsTimers_onJoin: "keepsTimers w (onJoin w email)"
  by (simp add: onJoin_def keepsTimers_addLog)

lemma keepsTimers_onText: "keepsTimers w (onText w email msg)"
  by (cases "accountData w email") (auto simp: keepsTimers_def onText_def flat absent)

lemma keepsTimers_chat: "keepsTimers w (snd (chat w email msg entry q))"
  by (cases "accountData w email")
     (auto simp: keepsTimers_def chat_def flat absent split: option.splits)

lemma keepsTimers_testReconnect: "keepsTimers w (snd (httpTestReconnect w email th))"
  by (cases "accountData w email")
     (auto simp: keepsTimers_def httpTestReconnect_def clientDisconnect_def flat absent
        split: option.splits)

lemma keepsTimers_setReconnect: "keepsTimers w (snd (httpSetReconnect w email en))"
  by (cases "accountData w email")
     (auto simp: keepsTimers_def httpSetReconnect_def flat)

lemma keepsTimers_discordReconnect: "keepsTimers w (snd (discordReconnect w email en))"
  by (cases "accountData w email")
     (auto simp: keepsTimers_def discordReconnect_def flat)

lemma keepsTimers_toggle: "keepsTimers w (snd (httpToggleReconnect w email))"
  by (cases "accountData w email")
     (auto simp: keepsTimers_def httpToggleReconnect_def flat)

lemma timersOwned_scheduleReconnect:
  assumes "timersOwned w"
  shows "timersOwned (scheduleReconnect w email)"
proof (cases "accountData w email")
  case None
  then show ?thesis using assms by (simp add: scheduleReconnect_def)
next
  case (Some b)
  show ?thesis
  proof (cases "manualDisconnect b \<or> \<not> autoReconnect b")
    case True
    then show ?thesis using assms scheduleReconnect_skips [OF Some] by simp
  next
    case False
    then have flags: "\<not> manualDisconnect b" "autoReconnect b" by simp_all
    let ?w' = "scheduleReconnect w email"
    have tm: "timers ?w' = (timers (clearTimeout w (reconnectTimer b)))
                (nextTimer w \<mapsto> (email, reconnectDelay (reconnectAttempts b)))"
      and own: "\<exists>b'. accountData ?w' email = Some b' \<and> reconnectTimer b' = Some (nextTimer w)"
      and others: "\<And>e. e \<noteq> email \<Longrightarrow> accountData ?w' e = accountData w e"
      unfolding scheduleReconnect_arms [OF Some flags] by (simp_all add: Let_def)
    show ?thesis
      unfolding timersOwned_def
    proof (intro allI impI)
      fix t e d
      assume pend: "timers ?w' t = Some (e, d)"
      show "\<exists>b'. accountData ?w' e = Some b' \<and> reconnectTimer b' = Some t"
      proof (cases "t = nextTimer w")
        case True
        with pend tm have "e = email" by simp
        with own True show ?thesis by simp
      next
        case False
        with pend tm have old: "timers w t = Some (e, d)" and "reconnectTimer b \<noteq> Some t"
          by (auto simp: clearTimeout_def split: option.splits if_splits)
        from assms old obtain b0 where b0: "accountData w e = Some b0" "reconnectTimer b0 = Some t"
          unfolding timersOwned_def by blast
        with Some \<open>reconnectTimer b \<noteq> Some t\<close> have "e \<noteq> email" by auto
        with others b0 show ?thesis by simp
      qed
    qed
  qed
qed


lemma timersOwned_handleSessionEnd:
  assumes "timersOwned w"
  shows "timersOwned (handleSessionEnd w email r e)"
proof (cases "accountData w email")
  case None
  then show ?thesis using assms by (simp add: handleSessionEnd_def)
next
  case (Some b)
  show ?thesis
  proof (cases "disconnectHandled b")
    case True
    then show ?thesis using assms handleSessionEnd_handled [OF Some] by simp
  next
    case False
    let ?b1 = "b\<lparr>disconnectHandled := True, status := (if e then Error else Offline),
                  client := None, logs := pushLog (logs b) (LogSessionEnd e r)\<rparr>"
    let ?w1 = "discordNotify
                 (w\<lparr>accountData := (accountData w)(email \<mapsto> ?b1),
                    updates := updates w @ [snapshotOf email ?b1, snapshotOf email ?b1]\<rparr>)
                 (NoticeSessionEnd e email r (autoReconnect b \<and> \<not> manualDisconnect b))"
    have "keepsTimers w ?w1"
      using Some by (auto simp: keepsTimers_def discordNotify_def)
    with assms have own1: "timersOwned ?w1" by (rule timersOwned_keeps)
    have eq: "handleSessionEnd w email r e =
        (if \<not> manualDisconnect b \<and> autoReconnect b then scheduleReconnect ?w1 email else ?w1)"
      using handleSessionEnd_first [OF Some False, of r e] unfolding Let_def .
    show ?thesis
    proof (cases "\<not> manualDisconnect b \<and> autoReconnect b")
      case True
      show ?thesis
        unfolding eq if_P [OF True] by (rule timersOwned_scheduleReconnect [OF own1])
    next
      case False
      show ?thesis
        unfolding eq if_not_P [OF False] by (rule own1)
    qed
  qed
qed

lemma keepsTimers_startBot_created: "keepsTimers w (startBot w email r None)"
  by (auto simp: keepsTimers_def startBot_opened Let_def sessionOrNew_def startingBot_def)

lemma startBot_failed_record:
  "\<exists>w6 b6. keepsTimers w w6 \<and> startBot w email r (Some msg) = scheduleReconnect w6 email
      \<and> accountData w6 email = Some b6 \<and> status b6 = Error \<and> \<not> manualDisconnect b6
      \<and> (accountData w email = None \<longrightarrow> reconnectTimer b6 = None)"
  unfolding startBot_thrown Let_def
  by (intro exI conjI, rule_tac [2] refl)
     (auto simp: keepsTimers_def sessionOrNew_def startingBot_def newBot_def)

lemma timersOwned_startBot:
  assumes "timersOwned w"
  shows "timersOwned (startBot w email r thrown)"
proof (cases thrown)
  case None
  with assms keepsTimers_startBot_created [of w email r] show ?thesis
    by (auto intro: timersOwned_keeps)
next
  case (Some msg)
  obtain w6 where "keepsTimers w w6" "startBot w email r (Some msg) = scheduleReconnect w6 email"
    using startBot_failed_record [of w email r msg] by blast
  with assms Some show ?thesis
    by (auto intro: timersOwned_keeps timersOwned_scheduleReconnect)
qed


lemma httpDisconnect_world:
  assumes "accountData w email = Some b"
  shows "httpDisconnect w email throws =
     (Success,
      w\<lparr>accountData := (accountData w)
           (email \<mapsto> (stoppedBot b LogManuallyDisconnected)\<lparr>reconnectTimer := None\<rparr>),
        live := liveAfterClose w b throws,
        timers := timers (clearTimeout w (reconnectTimer b)),
        updates := updates w @
          [snapshotOf email ((stoppedBot b LogManuallyDisconnected)\<lparr>reconnectTimer := None\<rparr>),
           snapshotOf email ((stoppedBot b LogManuallyDisconnected)\<lparr>reconnectTimer := None\<rparr>)]\<rparr>)"
  using assms
  by (cases w; cases b; cases "reconnectTimer b"; cases "client b")
     (simp_all add: httpDisconnect_def closeClient_def clientDisconnect_def clearTimeout_def
        stoppedBot_def liveAfterClose_def flat)

lemma discordDisconnect_world:
  assumes "accountData w email = Some b"
  shows "discordDisconnect w email throws =
     (Success,
      w\<lparr>accountData := (accountData w)(email \<mapsto> stoppedBot b LogDisconnectedViaDiscord),
        live := liveAfterClose w b throws,
        timers := timers (clearTimeout w (reconnectTimer b)),
        updates := updates w @
          [snapshotOf email (stoppedBot b LogDisconnectedViaDiscord),
           snapshotOf email (stoppedBot b LogDisconnectedViaDiscord)]\<rparr>)"
  using assms
  by (cases w; cases b; cases "reconnectTimer b"; cases "client b")
     (simp_all add: discordDisconnect_def closeClient_def clientDisconnect_def clearTimeout_def
        stoppedBot_def liveAfterClose_def flat)

lemma timersOwned_stop:
  assumes "timersOwned w" and "accountData w email = Some b"
    and "reconnectTimer b' = None \<or> reconnectTimer b' = reconnectTimer b"
  shows "timersOwned
     (w\<lparr>accountData := (accountData w)(email \<mapsto> b'), live := l,
        timers := timers (clearTimeout w (reconnectTimer b)), updates := u\<rparr>)"
    (is "timersOwned ?w'")
  unfolding timersOwned_def
proof (intro allI impI)
  fix t e d
  assume "timers ?w' t = Some (e, d)"
  then have old: "timers w t = Some (e, d)" and nt: "reconnectTimer b \<noteq> Some t"
    by (auto simp: clearTimeout_def split: option.splits if_splits)
  from assms(1) old obtain b0 where b0: "accountData w e = Some b0" "reconnectTimer b0 = Some t"
    unfolding timersOwned_def by blast
  with assms(2) nt have "e \<noteq> email" by auto
  with b0 show "\<exists>b1. accountData ?w' e = Some b1 \<and> reconnectTimer b1 = Some t" by simp
qed


lemma timersOwned_httpDisconnect:
  "timersOwned w \<Longrightarrow> timersOwned (snd (httpDisconnect w email throws))"
proof (cases "accountData w email")
  case None
  then show "timersOwned w \<Longrightarrow> ?thesis" by (simp add: httpDisconnect_def)
next
  case (Some b)
  show "timersOwned w \<Longrightarrow> ?thesis"
    unfolding httpDisconnect_world [OF Some] snd_conv
    by (rule timersOwned_stop [OF _ Some]) simp_all
qed

lemma timersOwned_discordDisconnect:
  "timersOwned w \<Longrightarrow> timersOwned (snd (discordDisconnect w email throws))"
proof (cases "accountData w email")
  case None
  then show "timersOwned w \<Longrightarrow> ?thesis" by (simp add: discordDisconnect_def)
next
  case (Some b)
  show "timersOwned w \<Longrightarrow> ?thesis"
    unfolding discordDisconnect_world [OF Some] snd_conv
    by (rule timersOwned_stop [OF _ Some]) (simp_all add: stoppedBot_def)
qed

lemma timersOwned_fireTimer:
  assumes "timersOwned w"
  shows "timersOwned (fireTimer w t thrown)"
proof (cases "timers w t")
  case None
  then show ?thesis using assms by (simp add: fireTimer_def)
next
  case (Some p)
  obtain email d where p: "p = (email, d)" by (cases p)
  have own: "timersOwned (w\<lparr>timers := (timers w)(t := None)\<rparr>)"
    using assms unfolding timersOwned_def by (auto split: if_splits)
  show ?thesis
    using own timersOwned_startBot [OF own]
    by (simp add: fireTimer_def Some p timerCallback_def split: option.splits)
qed

lemma timersOwned_connect:
  assumes "timersOwned w"
  shows "timersOwned (snd (httpConnect w email thrown))"
    and "timersOwned (snd (discordConnect w email thrown))"
  using assms timersOwned_startBot [OF assms]
  by (auto simp: httpConnect_def discordConnect_def split: option.splits)

lemma timersOwned_live: "timersOwned (w\<lparr>live := l\<rparr>) = timersOwned w"
  by (simp add: timersOwned_def)

lemma timersOwned_step:
  assumes "timersOwned w"
  shows "timersOwned (step w ev)"
proof (cases ev)
  case (EndOfSession c s)
  then show ?thesis
    using assms timersOwned_handleSessionEnd [of "w\<lparr>live := removeAll c (live w)\<rparr>"]
    by (simp add: clientEvent_def onEndSignal_def timersOwned_live split: option.splits)
qed (use assms in \<open>auto simp: clientEvent_def httpChat_def discordChat_def split: option.splits
      intro: timersOwned_connect timersOwned_httpDisconnect timersOwned_discordDisconnect
        timersOwned_fireTimer
        timersOwned_keeps [OF _ keepsTimers_setReconnect]
        timersOwned_keeps [OF _ keepsTimers_toggle]
        timersOwned_keeps [OF _ keepsTimers_discordReconnect]
        timersOwned_keeps [OF _ keepsTimers_chat]
        timersOwned_keeps [OF _ keepsTimers_testReconnect]
        timersOwned_keeps [OF _ keepsTimers_onMsaCode]
        timersOwned_keeps [OF _ keepsTimers_onSpawn]
        timersOwned_keeps [OF _ keepsTimers_onJoin]
        timersOwned_keeps [OF _ keepsTimers_onText]\<close>)

lemma timersOwned_run: "timersOwned w \<Longrightarrow> timersOwned (run w evs)"
  unfolding run_def by (induction evs arbitrary: w) (simp_all add: timersOwned_step)

lemma timersOwned_init: "timersOwned (initWorld ch)"
  by (simp add: timersOwned_def initWorld_def)



subsection \<open>The log bound in every reachable world\<close>

lemma logsBounded_addLog: "logsBounded w \<Longrightarrow> logsBounded (addLog w email m)"
  by (cases "accountData w email")
     (auto simp: logsBounded_def flat absent pushLog_length)

lemma logsBounded_onSpawn: "logsBounded w \<Longrightarrow> logsBounded (onSpawn w email c q)"
  by (cases "accountData w email"; cases q)
     (auto simp: logsBounded_def onSpawn_def flat absent pushLog_length)

lemma logsBounded_onMsaCode: "logsBounded w \<Longrightarrow> logsBounded (onMsaCode w email d)"
  by (cases "accountData w email")
     (auto simp: logsBounded_def onMsaCode_def flat absent pushLog_length)

lemma logsBounded_onText: "logsBounded w \<Longrightarrow> logsBounded (onText w email msg)"
  by (cases "accountData w email")
     (auto simp: logsBounded_def onText_def flat absent pushLog_length)

lemma logsBounded_chat: "logsBounded w \<Longrightarrow> logsBounded (snd (chat w email msg entry q))"
  by (cases "accountData w email")
     (auto simp: logsBounded_def chat_def flat absent pushLog_length split: option.splits)

lemma logsBounded_testReconnect:
  "logsBounded w \<Longrightarrow> logsBounded (snd (httpTestReconnect w email th))"
  by (cases "accountData w email")
     (auto simp: logsBounded_def httpTestReconnect_def clientDisconnect_def flat absent
        pushLog_length split: option.splits)

lemma logsBounded_httpSetReconnect:
  "logsBounded w \<Longrightarrow> logsBounded (snd (httpSetReconnect w email en))"
  by (cases "accountData w email")
     (auto simp: logsBounded_def httpSetReconnect_def flat pushLog_length)

lemma logsBounded_discordReconnect:
  "logsBounded w \<Longrightarrow> logsBounded (snd (discordReconnect w email en))"
  by (cases "accountData w email")
     (auto simp: logsBounded_def discordReconnect_def flat pushLog_length)

lemma logsBounded_toggle:
  "logsBounded w \<Longrightarrow> logsBounded (snd (httpToggleReconnect w email))"
  by (cases "accountData w email")
     (auto simp: logsBounded_def httpToggleReconnect_def flat pushLog_length)

lemma logsBounded_scheduleReconnect:
  assumes "logsBounded w"
  shows "logsBounded (scheduleReconnect w email)"
proof (cases "accountData w email")
  case None
  then show ?thesis using assms by (simp add: scheduleReconnect_def)
next
  case (Some b)
  show ?thesis
  proof (cases "manualDisconnect b \<or> \<not> autoReconnect b")
    case True
    then show ?thesis using assms scheduleReconnect_skips [OF Some] by simp
  next
    case False
    then have flags: "\<not> manualDisconnect b" "autoReconnect b" by simp_all
    show ?thesis
      unfolding scheduleReconnect_arms [OF Some flags]
      using assms Some by (auto simp: logsBounded_def Let_def pushLog_length)
  qed
qed

lemma logsBounded_handleSessionEnd:
  assumes "logsBounded w"
  shows "logsBounded (handleSessionEnd w email r e)"
proof (cases "accountData w email")
  case None
  then show ?thesis using assms by (simp add: handleSessionEnd_def)
next
  case (Some b)
  show ?thesis
  proof (cases "disconnectHandled b")
    case True
    then show ?thesis using assms handleSessionEnd_handled [OF Some] by simp
  next
    case False
    let ?b1 = "b\<lparr>disconnectHandled := True, status := (if e then Error else Offline),
                  client := None, logs := pushLog (logs b) (LogSessionEnd e r)\<rparr>"
    let ?w1 = "w\<lparr>accountData := (accountData w)(email \<mapsto> ?b1),
                 updates := updates w @ [snapshotOf email ?b1, snapshotOf email ?b1],
                 notifications := sendIf (discordChannel w) (notifications w)
                   (NoticeSessionEnd e email r (autoReconnect b \<and> \<not> manualDisconnect b))\<rparr>"
    have eq: "handleSessionEnd w email r e =
        (if \<not> manualDisconnect b \<and> autoReconnect b then scheduleReconnect ?w1 email else ?w1)"
      using handleSessionEnd_flat [OF Some False, of r e] unfolding Let_def .
    have b1: "logsBounded ?w1"
      using assms Some by (auto simp: logsBounded_def pushLog_length)
    show ?thesis
    proof (cases "\<not> manualDisconnect b \<and> autoReconnect b")
      case True
      show ?thesis
        unfolding eq if_P [OF True] by (rule logsBounded_scheduleReconnect [OF b1])
    next
      case False
      show ?thesis
        unfolding eq if_not_P [OF False] by (rule b1)
    qed
  qed
qed

lemma logsBounded_startBot:
  assumes "logsBounded w"
  shows "logsBounded (startBot w email r thrown)"
proof -
  have start: "length (logs (startingBot (sessionOrNew w email) r)) \<le> 200"
    using assms
    by (cases "accountData w email")
       (auto simp: logsBounded_def sessionOrNew_def startingBot_def newBot_def pushLog_length)
  show ?thesis
  proof (cases thrown)
    case None
    show ?thesis
      unfolding None startBot_opened Let_def
      using assms start by (auto simp: logsBounded_def)
  next
    case (Some msg)
    show ?thesis
      unfolding Some startBot_thrown Let_def
      by (rule logsBounded_scheduleReconnect)
         (use assms start in \<open>auto simp: logsBounded_def pushLog_length\<close>)
  qed
qed

lemma logsBounded_httpDisconnect:
  assumes "logsBounded w"
  shows "logsBounded (snd (httpDisconnect w email throws))"
proof (cases "accountData w email")
  case None
  then show ?thesis using assms by (simp add: httpDisconnect_def)
next
  case (Some b)
  show ?thesis
    unfolding httpDisconnect_world [OF Some]
    using assms Some by (auto simp: logsBounded_def stoppedBot_def pushLog_length)
qed

lemma logsBounded_discordDisconnect:
  assumes "logsBounded w"
  shows "logsBounded (snd (discordDisconnect w email throws))"
proof (cases "accountData w email")
  case None
  then show ?thesis using assms by (simp add: discordDisconnect_def)
next
  case (Some b)
  show ?thesis
    unfolding discordDisconnect_world [OF Some]
    using assms Some by (auto simp: logsBounded_def stoppedBot_def pushLog_length)
qed

lemma logsBounded_fireTimer: "logsBounded w \<Longrightarrow> logsBounded (fireTimer w t thrown)"
  using logsBounded_startBot [of "w\<lparr>timers := (timers w)(t := None)\<rparr>"]
  by (auto simp: fireTimer_def timerCallback_def logsBounded_def split: option.splits)

lemma logsBounded_connect:
  "logsBounded w \<Longrightarrow> logsBounded (snd (httpConnect w email thrown))"
  "logsBounded w \<Longrightarrow> logsBounded (snd (discordConnect w email thrown))"
  using logsBounded_startBot [of w email False thrown]
  by (auto simp: httpConnect_def discordConnect_def split: option.splits)

lemma logsBounded_step:
  assumes "logsBounded w"
  shows "logsBounded (step w ev)"
proof (cases ev)
  case (EndOfSession c s)
  from assms have "logsBounded (w\<lparr>live := removeAll c (live w)\<rparr>)"
    by (simp add: logsBounded_def)
  then show ?thesis
    using assms EndOfSession
    by (simp add: clientEvent_def onEndSignal_def logsBounded_handleSessionEnd
        split: option.splits)
qed (use assms in \<open>simp_all add: clientEvent_def httpChat_def discordChat_def onJoin_def
      logsBounded_connect logsBounded_httpDisconnect logsBounded_discordDisconnect
      logsBounded_fireTimer logsBounded_httpSetReconnect logsBounded_discordReconnect
      logsBounded_toggle logsBounded_chat logsBounded_testReconnect logsBounded_onMsaCode
      logsBounded_onSpawn logsBounded_addLog logsBounded_onText split: option.splits\<close>)

lemma logsBounded_run: "logsBounded w \<Longrightarrow> logsBounded (run w evs)"
  unfolding run_def by (induction evs arbitrary: w) (simp_all add: logsBounded_step)

lemma logsBounded_init: "logsBounded (initWorld ch)"
  by (simp add: logsBounded_def initWorld_def)

subsection \<open>The pending-timer predicate\<close>

lemma timerInv_scheduleReconnect:
  assumes "accountData w email = Some b" and "status b = Offline \<or> status b = Error"
    and "timerPending w email \<longrightarrow> autoReconnect b \<and> \<not> manualDisconnect b"
  shows "timerInv (scheduleReconnect w email) email"
proof (cases "manualDisconnect b \<or> \<not> autoReconnect b")
  case True
  then show ?thesis
    using assms scheduleReconnect_skips [OF assms(1)] by (auto simp: timerInv_def)
next
  case False
  then have flags: "\<not> manualDisconnect b" "autoReconnect b" by simp_all
  show ?thesis
    unfolding scheduleReconnect_arms [OF assms(1) flags]
    using assms(2) flags by (simp add: timerInv_def timerPending_def Let_def)
qed

lemma timerInv_handleSessionEnd:
  assumes "timerInv w email"
  shows "timerInv (handleSessionEnd w email r e) email"
proof (cases "accountData w email")
  case None
  then show ?thesis using assms by (simp add: handleSessionEnd_def)
next
  case (Some b)
  show ?thesis
  proof (cases "disconnectHandled b")
    case True
    then show ?thesis using assms handleSessionEnd_handled [OF Some] by simp
  next
    case False
    let ?b1 = "b\<lparr>disconnectHandled := True, status := (if e then Error else Offline),
                  client := None, logs := pushLog (logs b) (LogSessionEnd e r)\<rparr>"
    let ?w1 = "discordNotify
                 (w\<lparr>accountData := (accountData w)(email \<mapsto> ?b1),
                    updates := updates w @ [snapshotOf email ?b1, snapshotOf email ?b1]\<rparr>)
                 (NoticeSessionEnd e email r (autoReconnect b \<and> \<not> manualDisconnect b))"
    have eq: "handleSessionEnd w email r e =
        (if \<not> manualDisconnect b \<and> autoReconnect b then scheduleReconnect ?w1 email else ?w1)"
      using handleSessionEnd_first [OF Some False, of r e] unfolding Let_def .
    have rec1: "accountData ?w1 email = Some ?b1"
      by (simp add: discordNotify_fields)
    have pend1: "timerPending ?w1 email = timerPending w email"
      using Some by (simp add: timerPending_def discordNotify_fields split: option.splits)
    have st1: "status ?b1 = Offline \<or> status ?b1 = Error" by simp
    show ?thesis
    proof (cases "\<not> manualDisconnect b \<and> autoReconnect b")
      case True
      show ?thesis
        unfolding eq if_P [OF True]
        by (rule timerInv_scheduleReconnect [OF rec1 st1]) (use True in simp)
    next
      case False
      have "\<not> timerPending w email"
        using assms Some False by (auto simp: timerInv_def)
      then show ?thesis
        unfolding eq if_not_P [OF False] by (simp add: timerInv_def pend1)
    qed
  qed
qed

lemma timerPending_keeps:
  assumes "keepsTimers w w'" and "accountData w email = Some b"
  shows "timerPending w' email = timerPending w email"
proof -
  from assms obtain b' where "accountData w' email = Some b'"
      "reconnectTimer b' = reconnectTimer b" "timers w' = timers w"
    unfolding keepsTimers_def by blast
  with assms(2) show ?thesis by (simp add: timerPending_def split: option.splits)
qed

lemma timerInv_stop:
  "timerInv (snd (httpDisconnect w email throws)) email"
  "timerInv (snd (discordDisconnect w email throws)) email"
proof -
  show "timerInv (snd (httpDisconnect w email throws)) email"
  proof (cases "accountData w email")
    case None
    then show ?thesis by (simp add: httpDisconnect_def timerInv_def timerPending_def)
  next
    case (Some b)
    show ?thesis
      unfolding httpDisconnect_world [OF Some]
      by (simp add: timerInv_def timerPending_def split: option.splits)
  qed
  show "timerInv (snd (discordDisconnect w email throws)) email"
  proof (cases "accountData w email")
    case None
    then show ?thesis by (simp add: discordDisconnect_def timerInv_def timerPending_def)
  next
    case (Some b)
    show ?thesis
      unfolding discordDisconnect_world [OF Some]
      by (cases "reconnectTimer b")
         (simp_all add: timerInv_def timerPending_def stoppedBot_def clearTimeout_def split: option.splits)
  qed
qed

lemma timerInv_enable:
  assumes "timerInv w email"
  shows "timerInv (snd (httpSetReconnect w email True)) email"
    and "timerInv (snd (discordReconnect w email True)) email"
    and "\<forall>b. accountData w email = Some b \<longrightarrow> \<not> autoReconnect b \<longrightarrow>
           timerInv (snd (httpToggleReconnect w email)) email"
proof -
  show "timerInv (snd (httpSetReconnect w email True)) email"
  proof (cases "accountData w email")
    case None
    then show ?thesis by (simp add: httpSetReconnect_def timerInv_def timerPending_def)
  next
    case (Some b)
    show ?thesis
      using assms Some unfolding setReconnect_world [OF Some]
      by (simp add: timerInv_def timerPending_def split: option.splits)
  qed
  show "timerInv (snd (discordReconnect w email True)) email"
  proof (cases "accountData w email")
    case None
    then show ?thesis by (simp add: discordReconnect_def timerInv_def timerPending_def)
  next
    case (Some b)
    show ?thesis
      using assms Some unfolding discordReconnect_world [OF Some]
      by (simp add: timerInv_def timerPending_def split: option.splits)
  qed
  show "\<forall>b. accountData w email = Some b \<longrightarrow> \<not> autoReconnect b \<longrightarrow>
           timerInv (snd (httpToggleReconnect w email)) email"
  proof (intro allI impI)
    fix b assume Some: "accountData w email = Some b" and off: "\<not> autoReconnect b"
    show "timerInv (snd (httpToggleReconnect w email)) email"
      using assms Some off unfolding toggleReconnect_world [OF Some]
      by (simp add: timerInv_def timerPending_def split: option.splits)
  qed
qed

lemma timerInv_startBot:
  assumes "\<not> timerPending w email"
  shows "timerInv (startBot w email r thrown) email"
proof (cases thrown)
  case None
  have keeps: "keepsTimers w (startBot w email r None)"
    by (rule keepsTimers_startBot_created)
  show ?thesis
  proof (cases "accountData w email")
    case (Some b)
    from timerPending_keeps [OF keeps Some] assms None show ?thesis
      by (simp add: timerInv_def)
  next
    case absent: None
    then show ?thesis
      unfolding None
      by (simp add: timerInv_def timerPending_def startBot_opened Let_def sessionOrNew_def
            startingBot_def newBot_def)
  qed
next
  case (Some msg)
  obtain w6 b6 where w6: "keepsTimers w w6"
      "startBot w email r (Some msg) = scheduleReconnect w6 email"
      "accountData w6 email = Some b6" "status b6 = Error" "\<not> manualDisconnect b6"
      "accountData w email = None \<longrightarrow> reconnectTimer b6 = None"
    using startBot_failed_record [of w email r msg] by (elim exE conjE) (rule that)
  have "\<not> timerPending w6 email"
  proof (cases "accountData w email")
    case None
    with w6 show ?thesis by (simp add: timerPending_def)
  next
    case (Some b)
    from timerPending_keeps [OF w6(1) Some] assms show ?thesis by simp
  qed
  then show ?thesis
    unfolding Some w6(2)
    by (intro timerInv_scheduleReconnect [OF w6(3)]) (simp_all add: w6)
qed

lemma timerInv_fireTimer:
  assumes "timersOwned w" and "timers w t = Some (email, d)"
  shows "timerInv (fireTimer w t thrown) email"
proof -
  let ?w' = "w\<lparr>timers := (timers w)(t := None)\<rparr>"
  from assms obtain b where b: "accountData w email = Some b" "reconnectTimer b = Some t"
    unfolding timersOwned_def by blast
  have np: "\<not> timerPending ?w' email"
    using b by (simp add: timerPending_def)
  have "fireTimer w t thrown =
      (if \<not> manualDisconnect b \<and> autoReconnect b then startBot ?w' email True thrown else ?w')"
    using assms(2) b by (simp add: fireTimer_def timerCallback_def)
  then show ?thesis
    using np timerInv_startBot [OF np, of True thrown] by (simp add: timerInv_def)
qed

subsection \<open>Concrete runs\<close>

text \<open>Rules that evaluate a run of events on a concrete world.\<close>

lemmas eval =
  run_def initWorld_def httpConnect_def isActive_def clientEvent_def
  startBot_opened sessionOrNew_def startingBot_def newBot_def onSpawn_flat
  onEndSignal_def endReason_def endIsError_def handleSessionEnd_flat scheduleReconnect_arms
  fireTimer_def timerCallback_def clearTimeout_def reconnectDelay_values
  pushLog_def sendIf_def Let_def

lemma onlineSession_record:
  "accountData onlineSession ''a'' = Some
     \<lparr>client = Some 0, status = Online, logs = [LogStarting, LogSpawned, LogSentHome],
      autoReconnect = True, reconnectAttempts = 0, manualDisconnect = False,
      deviceCode = None, reconnectTimer = None, disconnectHandled = False\<rparr>"
  unfolding onlineSession_def by (simp add: eval)

lemma droppedSession_record:
  "accountData droppedSession ''a'' = Some
     \<lparr>client = None, status = Offline,
      logs = [LogStarting, LogSpawned, LogSentHome, LogSessionEnd False ConnectionClosed,
              LogAutoReconnectIn 5000 1],
      autoReconnect = True, reconnectAttempts = 0, manualDisconnect = False,
      deviceCode = None, reconnectTimer = Some 0, disconnectHandled = True\<rparr>"
  unfolding droppedSession_def by (simp add: eval)

lemma droppedSession_timers: "timers droppedSession = [0 \<mapsto> (''a'', 5000)]"
  unfolding droppedSession_def by (simp add: eval)

section \<open>The claims\<close>

text \<open>
  C4. When the scheduler arms a timer for a session with \<open>n\<close> reconnect attempts, the
  delay it passes to \<open>setTimeout\<close> is \<open>min (5000 * 1.5 ^ min n 12) 60000\<close>
  milliseconds: 5000, 7500 and 11250 for \<open>n\<close> = 0, 1, 2, and exactly 60000 for
  every \<open>n\<close> from 12 on.
\<close>

theorem scheduleReconnect_delay:
  assumes "accountData w email = Some b"
    and "\<not> manualDisconnect b" and "autoReconnect b"
  shows "armedDelay (scheduleReconnect w email) email =
           Some (min (5000 * (3 / 2) ^ min (reconnectAttempts b) 12) 60000)
       \<and> (reconnectAttempts b = 0 \<longrightarrow>
            armedDelay (scheduleReconnect w email) email = Some 5000)
       \<and> (reconnectAttempts b = 1 \<longrightarrow>
            armedDelay (scheduleReconnect w email) email = Some 7500)
       \<and> (reconnectAttempts b = 2 \<longrightarrow>
            armedDelay (scheduleReconnect w email) email = Some 11250)
       \<and> (12 \<le> reconnectAttempts b \<longrightarrow>
            armedDelay (scheduleReconnect w email) email = Some 60000)"
proof -
  have armed: "armedDelay (scheduleReconnect w email) email =
                 Some (reconnectDelay (reconnectAttempts b))"
    by (simp add: scheduleReconnect_arms [OF assms] armedDelay_def Let_def)
  show ?thesis
    unfolding armed
    using reconnectDelay_values reconnectDelay_cap [of "reconnectAttempts b"]
    by (auto simp: reconnectDelay_def)
qed

theorem scheduleReconnect_delay_witness:
  "armedDelay (scheduleReconnect (oneSession ''a'' (attempt 0)) ''a'') ''a'' = Some 5000
 \<and> armedDelay (scheduleReconnect (oneSession ''a'' (attempt 1)) ''a'') ''a'' = Some 7500
 \<and> armedDelay (scheduleReconnect (oneSession ''a'' (attempt 2)) ''a'') ''a'' = Some 11250
 \<and> armedDelay (scheduleReconnect (oneSession ''a'' (attempt 12)) ''a'') ''a'' = Some 60000
 \<and> armedDelay (scheduleReconnect (oneSession ''a'' (attempt 40)) ''a'') ''a'' = Some 60000"
proof -
  have rec: "accountData (oneSession ''a'' (attempt n)) ''a'' = Some (attempt n)"
    for n by (simp add: oneSession_def)
  have flags: "\<not> manualDisconnect (attempt n)" "autoReconnect (attempt n)" for n
    by (simp_all add: attempt_def newBot_def)
  have count: "reconnectAttempts (attempt n) = n" for n
    by (simp add: attempt_def)
  show ?thesis
    using scheduleReconnect_delay [OF rec flags, of 0]
      scheduleReconnect_delay [OF rec flags, of 1]
      scheduleReconnect_delay [OF rec flags, of 2]
      scheduleReconnect_delay [OF rec flags, of 12]
      scheduleReconnect_delay [OF rec flags, of 40]
    by (simp add: count power_divide)
qed

text \<open>
  C9. Log insertions into an empty log keep the last 200 messages in insertion
  order: after the messages \<open>ms\<close> the log is \<open>ms\<close> without its first
  \<open>length ms - 200\<close> entries, it never holds more than 200 entries, and after
  exactly 250 insertions the 50 oldest are gone and 200 remain. In every world
  reached from the empty table, whatever the events, no session holds more than
  200 log entries.
\<close>

theorem addLogs_bounded_fifo:
  assumes "accountData w email = Some b" and "logs b = []"
  shows "logsOf (addLogs w email ms) email = drop (length ms - 200) ms
       \<and> length (logsOf (addLogs w email ms) email) \<le> 200
       \<and> (length ms = 250 \<longrightarrow>
            logsOf (addLogs w email ms) email = drop 50 ms
          \<and> length (logsOf (addLogs w email ms) email) = 200)
       \<and> (\<forall>ch evs e b'. accountData (run (initWorld ch) evs) e = Some b' \<longrightarrow>
            length (logs b') \<le> 200)"
proof -
  have reach: "length (logs b') \<le> 200"
    if "accountData (run (initWorld ch) evs) e = Some b'" for ch evs e b'
    using logsBounded_run [OF logsBounded_init, of ch evs] that
    unfolding logsBounded_def by blast
  have "logsOf (addLogs w email ms) email = foldl pushLog [] ms"
    using assms logsOf_addLogs [of w email ms] by (simp add: logsOf_def)
  then have eq: "logsOf (addLogs w email ms) email = drop (length ms - 200) ms"
    by (simp add: foldl_pushLog sliceLast_def)
  show ?thesis unfolding eq using reach by auto
qed

theorem addLogs_bounded_fifo_witness:
  "logsOf (addLogs (oneSession ''a'' (attempt 0)) ''a'' (map LogReconnectAttempt [0..<250])) ''a''
     = map LogReconnectAttempt [50..<250]"
proof -
  have rec: "accountData (oneSession ''a'' (attempt 0)) ''a'' = Some (attempt 0)"
    by (simp add: oneSession_def)
  have empty: "logs (attempt 0) = []"
    by (simp add: attempt_def newBot_def)
  show ?thesis
    using addLogs_bounded_fifo [OF rec empty, of "map LogReconnectAttempt [0..<250]"]
    by (simp add: drop_map)
qed

text \<open>
  C8. The spawn handler sets the state to Online, the reconnect attempt count to 0
  and clears the device code. End to end: after a connect command that starts a
  session, the auth-challenge callback of the new client leaves the state
  AuthRequired with the delivered user code, and the spawn event of that client
  then leaves the session Online with attempt count 0 and no device code.
\<close>

theorem spawn_online:
  assumes "accountData w email = Some b"
    and "fst (httpConnect w0 acct None) = Success"
  shows "(\<exists>b'. accountData (onSpawn w email c q) email = Some b'
            \<and> status b' = Online \<and> reconnectAttempts b' = 0 \<and> deviceCode b' = None)
       \<and> (\<exists>b2. accountData (run w0 [HttpConnect acct None, MsaCode (nextClient w0) d]) acct = Some b2
            \<and> status b2 = AuthRequired
            \<and> map_option userCode (deviceCode b2) = Some (user_code d))
       \<and> (\<exists>b3. accountData (run w0 [HttpConnect acct None, MsaCode (nextClient w0) d,
                                      Spawn (nextClient w0) q]) acct = Some b3
            \<and> status b3 = Online \<and> reconnectAttempts b3 = 0 \<and> deviceCode b3 = None)"
proof -
  let ?c = "nextClient w0"
  let ?w1 = "startBot w0 acct False None"
  have started: "snd (httpConnect w0 acct None) = ?w1"
    using assms(2) by (auto simp: httpConnect_def split: if_splits option.splits)
  obtain b1 where b1: "accountData ?w1 acct = Some b1"
    using startBot_created [of w0 acct False] by blast
  have ce1: "clientEmail ?w1 ?c = Some acct"
    by (simp add: startBot_clientEmail)
  let ?w2 = "onMsaCode ?w1 acct d"
  have run2: "run w0 [HttpConnect acct None, MsaCode ?c d] = ?w2"
    by (simp add: run_def started clientEvent_def ce1)
  have rec2: "accountData ?w2 acct =
      Some (b1\<lparr>deviceCode := Some \<lparr>userCode = user_code d, verificationUri = verification_uri d,
                                    expiresIn = expires_in d\<rparr>,
               status := AuthRequired,
               logs := pushLog (pushLog (pushLog (logs b1) LogAuthRequired)
                         (LogVisit (verification_uri d))) (LogCode (user_code d) (expires_in d))\<rparr>)"
    by (rule onMsaCode_record [OF b1])
  have ce2: "clientEmail ?w2 ?c = Some acct"
    by (simp add: onMsaCode_clientEmail ce1)
  have run3: "run w0 [HttpConnect acct None, MsaCode ?c d, Spawn ?c q] = onSpawn ?w2 acct ?c q"
    using run2 by (simp add: run_def clientEvent_def ce2)
  show ?thesis
    unfolding run2 run3
    by (simp add: onSpawn_record [OF assms(1)] onSpawn_record [OF rec2] rec2)
qed

theorem spawn_online_witness:
  "fst (httpConnect (initWorld False) ''a'' None) = Success
 \<and> (\<exists>b'. accountData (onSpawn (oneSession ''a'' (attempt 3)) ''a'' 0 None) ''a'' = Some b'
        \<and> status b' = Online \<and> reconnectAttempts b' = 0 \<and> deviceCode b' = None)
 \<and> (\<exists>b2. accountData (run (initWorld False)
             [HttpConnect ''a'' None,
              MsaCode 0 \<lparr>user_code = ''123-456'', verification_uri = ''https://www.microsoft.com/link'',
                         expires_in = 900\<rparr>]) ''a'' = Some b2
        \<and> status b2 = AuthRequired \<and> map_option userCode (deviceCode b2) = Some ''123-456'')
 \<and> (\<exists>b3. accountData (run (initWorld False)
             [HttpConnect ''a'' None,
              MsaCode 0 \<lparr>user_code = ''123-456'', verification_uri = ''https://www.microsoft.com/link'',
                         expires_in = 900\<rparr>,
              Spawn 0 None]) ''a'' = Some b3
        \<and> status b3 = Online \<and> reconnectAttempts b3 = 0 \<and> deviceCode b3 = None)"
proof -
  have ok: "fst (httpConnect (initWorld False) ''a'' None) = Success"
    by (simp add: httpConnect_def initWorld_def)
  have rec: "accountData (oneSession ''a'' (attempt 3)) ''a'' = Some (attempt 3)"
    by (simp add: oneSession_def)
  have c0: "nextClient (initWorld False) = 0"
    by (simp add: initWorld_def)
  show ?thesis
    using spawn_online [OF rec ok, where c = 0 and q = None and
        d = "\<lparr>user_code = ''123-456'', verification_uri = ''https://www.microsoft.com/link'',
          expires_in = 900\<rparr>"] ok
    by (simp add: c0)
qed

text \<open>
  C10. Beyond the Online transition, the spawn handler resets the
  \<open>disconnectHandled\<close> guard to false and queues the chat packet \<open>/home 1\<close> on the
  client it was registered on, logging the send. When \<open>client.queue\<close> throws, the
  failure is logged instead, nothing is sent, and the session is as after a
  successful send but for that log entry.
\<close>

theorem spawn_sends_home:
  assumes "accountData w email = Some b"
  shows "(\<exists>b'. accountData (onSpawn w email c None) email = Some b'
            \<and> \<not> disconnectHandled b' \<and> status b' = Online
            \<and> logs b' = pushLog (pushLog (logs b) LogSpawned) LogSentHome)
       \<and> sent (onSpawn w email c None) = sent w @ [(c, ''/home 1'')]
       \<and> (\<exists>b'. accountData (onSpawn w email c (Some msg)) email = Some b'
            \<and> \<not> disconnectHandled b' \<and> status b' = Online
            \<and> logs b' = pushLog (pushLog (logs b) LogSpawned) (LogHomeFailed msg)
            \<and> accountData (onSpawn w email c None) email
                = Some (b'\<lparr>logs := pushLog (pushLog (logs b) LogSpawned) LogSentHome\<rparr>))
       \<and> sent (onSpawn w email c (Some msg)) = sent w"
  by (simp add: onSpawn_record [OF assms] onSpawn_sent [OF assms])

theorem spawn_sends_home_witness:
  "sent (onSpawn (oneSession ''a'' (attempt 2)) ''a'' 7 None) = [(7, ''/home 1'')]
 \<and> logsOf (onSpawn (oneSession ''a'' (attempt 2)) ''a'' 7 None) ''a''
       = [LogSpawned, LogSentHome]
 \<and> sent (onSpawn (oneSession ''a'' (attempt 2)) ''a'' 7 (Some ''closed'')) = []
 \<and> logsOf (onSpawn (oneSession ''a'' (attempt 2)) ''a'' 7 (Some ''closed'')) ''a''
       = [LogSpawned, LogHomeFailed ''closed'']"
proof -
  have rec: "accountData (oneSession ''a'' (attempt 2)) ''a'' = Some (attempt 2)"
    by (simp add: oneSession_def)
  have empty: "logs (attempt 2) = []"
    by (simp add: attempt_def newBot_def)
  have none: "sent (oneSession ''a'' (attempt 2)) = []"
    by (simp add: oneSession_def initWorld_def)
  show ?thesis
    using spawn_sends_home [OF rec, of 7 "''closed''"]
    by (auto simp: logsOf_def empty none pushLog_def)
qed

text \<open>
  C7, as stated, fails on the answer: the slash command has no test for an empty
  account label and starts a session under it; the HTTP route tests
  \<open>!email\<close> before the state, so a connect for that active session is answered
  "email required", not "already active".
\<close>

theorem connect_active_rejected_counterexample:
  "map_option status (accountData (run (initWorld False) [DiscordConnect [] None]) [])
     = Some Connecting
 \<and> httpConnect (run (initWorld False) [DiscordConnect [] None]) [] None
     = (EmailRequired, run (initWorld False) [DiscordConnect [] None])"
  by (simp add: eval discordConnect_def)

text \<open>
  C7, amended. A connect command for an account whose session is Connecting,
  Online or AuthRequired is rejected and leaves the whole world as it was: no
  field of the session changes and no client is created. The slash command
  answers "already active", and so does the HTTP route unless the account label
  is empty, where it answers "email required".
\<close>

theorem connect_active_rejected:
  assumes "accountData w email = Some b"
    and "status b = Connecting \<or> status b = Online \<or> status b = AuthRequired"
  shows "snd (httpConnect w email thrown) = w
       \<and> discordConnect w email thrown = (AlreadyActive, w)
       \<and> (email \<noteq> [] \<longrightarrow> httpConnect w email thrown = (AlreadyActive, w))
       \<and> (email = [] \<longrightarrow> httpConnect w email thrown = (EmailRequired, w))"
  using assms by (auto simp: httpConnect_def discordConnect_def isActive_def)

theorem connect_active_rejected_witness:
  "httpConnect (oneSession ''a'' newBot) ''a'' None = (AlreadyActive, oneSession ''a'' newBot)
 \<and> discordConnect (oneSession ''a'' newBot) ''a'' None = (AlreadyActive, oneSession ''a'' newBot)
 \<and> httpConnect (oneSession ''a'' (newBot\<lparr>status := Online\<rparr>)) ''a'' None
      = (AlreadyActive, oneSession ''a'' (newBot\<lparr>status := Online\<rparr>))
 \<and> httpConnect (oneSession ''a'' (newBot\<lparr>status := AuthRequired\<rparr>)) ''a'' None
      = (AlreadyActive, oneSession ''a'' (newBot\<lparr>status := AuthRequired\<rparr>))"
proof -
  have rec: "accountData (oneSession ''a'' b) ''a'' = Some b" for b
    by (simp add: oneSession_def)
  show ?thesis
    using connect_active_rejected [OF rec, of newBot None]
      connect_active_rejected [OF rec, of "newBot\<lparr>status := Online\<rparr>" None]
      connect_active_rejected [OF rec, of "newBot\<lparr>status := AuthRequired\<rparr>" None]
    by (simp add: newBot_def)
qed

text \<open>
  C5. Switching auto-reconnect off while a reconnect timer of the session is armed
  (by \<open>/set-reconnect\<close>, by the \<open>reconnect\<close> slash command or by a toggle from on)
  leaves the timer armed and \<open>reconnectTimer\<close> as it was. When that timer fires, the
  callback finds the flag off and does not call \<open>startBot\<close>: the firing only
  consumes the timer, and no session changes and no client is created.
\<close>

theorem disabled_flag_checked_at_fire_time:
  assumes "accountData w email = Some b" and "timers w t = Some (email, d)"
    and "w1 = snd (httpSetReconnect w email False) \<or> w1 = snd (discordReconnect w email False)
         \<or> (autoReconnect b \<and> w1 = snd (httpToggleReconnect w email))"
  shows "timers w1 = timers w
       \<and> map_option reconnectTimer (accountData w1 email) = Some (reconnectTimer b)
       \<and> fireTimer w1 t thrown = w1\<lparr>timers := (timers w1)(t := None)\<rparr>
       \<and> accountData (fireTimer w1 t thrown) = accountData w1
       \<and> live (fireTimer w1 t thrown) = live w1
       \<and> nextClient (fireTimer w1 t thrown) = nextClient w1"
proof -
  from assms(3) have "\<exists>b1. accountData w1 email = Some b1 \<and> \<not> autoReconnect b1
      \<and> reconnectTimer b1 = reconnectTimer b \<and> timers w1 = timers w"
    by (auto simp: setReconnect_world [OF assms(1)] discordReconnect_world [OF assms(1)]
        toggleReconnect_world [OF assms(1)])
  then obtain b1 where b1: "accountData w1 email = Some b1" "\<not> autoReconnect b1"
      "reconnectTimer b1 = reconnectTimer b" "timers w1 = timers w"
    by blast
  have fire: "fireTimer w1 t thrown = w1\<lparr>timers := (timers w1)(t := None)\<rparr>"
    using b1 assms(2) by (intro fireTimer_disabled [of w1 email b1 t d]) simp_all
  show ?thesis
    unfolding fire using b1 by simp
qed

theorem disabled_flag_checked_at_fire_time_witness:
  "timers (snd (httpSetReconnect droppedSession ''a'' False)) = [0 \<mapsto> (''a'', 5000)]
 \<and> fireTimer (snd (httpSetReconnect droppedSession ''a'' False)) 0 None
     = (snd (httpSetReconnect droppedSession ''a'' False))\<lparr>timers := Map.empty\<rparr>
 \<and> live (fireTimer (snd (httpSetReconnect droppedSession ''a'' False)) 0 None)
     = live (snd (httpSetReconnect droppedSession ''a'' False))"
proof -
  have armed: "timers droppedSession 0 = Some (''a'', 5000)"
    by (simp add: droppedSession_timers)
  show ?thesis
    using disabled_flag_checked_at_fire_time [OF droppedSession_record armed,
        of "snd (httpSetReconnect droppedSession ''a'' False)" None]
    by (simp add: droppedSession_timers)
qed

text \<open>
  C2, as stated, fails twice. The first end signal of an online session with
  auto-reconnect on adds two log entries, the end reason and the scheduler's
  announcement of the delay (a second signal right after it adds none). And a
  further signal of the same client is not always a no-op: the guard belongs to
  the session, not to the client, and \<open>startBot\<close> resets it. After client 0 closed
  and the reconnect timer started client 1, the \<open>end\<close> signal of client 0 sets the
  session Offline, drops its reference to the live client 1 and arms a timer
  of 7500 ms.
\<close>

theorem end_signal_once_counterexample:
  "logsOf (onEndSignal onlineSession ''a'' (CloseSig False)) ''a''
     = logsOf onlineSession ''a'' @ [LogSessionEnd False ConnectionClosed, LogAutoReconnectIn 5000 1]
 \<and> logsOf (onEndSignal (onEndSignal onlineSession ''a'' (CloseSig False)) ''a'' (CloseSig True)) ''a''
     = logsOf onlineSession ''a'' @ [LogSessionEnd False ConnectionClosed, LogAutoReconnectIn 5000 1]
 \<and> map_option client (accountData restartedSession ''a'') = Some (Some 1)
 \<and> map_option status (accountData restartedSession ''a'') = Some Connecting
 \<and> timers restartedSession = Map.empty
 \<and> map_option client (accountData (step restartedSession (EndOfSession 0 EndSig)) ''a'')
     = Some None
 \<and> map_option status (accountData (step restartedSession (EndOfSession 0 EndSig)) ''a'')
     = Some Offline
 \<and> timers (step restartedSession (EndOfSession 0 EndSig)) = [1 \<mapsto> (''a'', 7500)]
 \<and> liveFor (step restartedSession (EndOfSession 0 EndSig)) ''a'' = [1]"
proof -
  have logs2: "logsOf (onEndSignal onlineSession ''a'' (CloseSig False)) ''a''
      = logsOf onlineSession ''a'' @ [LogSessionEnd False ConnectionClosed, LogAutoReconnectIn 5000 1]"
    "logsOf (onEndSignal (onEndSignal onlineSession ''a'' (CloseSig False)) ''a'' (CloseSig True)) ''a''
      = logsOf onlineSession ''a'' @ [LogSessionEnd False ConnectionClosed, LogAutoReconnectIn 5000 1]"
    unfolding logsOf_def onEndSignal_def endReason_def endIsError_def
    by (simp_all add: onlineSession_record handleSessionEnd_flat handleSessionEnd_handled
        scheduleReconnect_arms reconnectDelay_values pushLog_def Let_def)
  have before: "map_option client (accountData restartedSession ''a'') = Some (Some 1)"
    "map_option status (accountData restartedSession ''a'') = Some Connecting"
    "timers restartedSession = Map.empty"
    unfolding restartedSession_def by (simp_all add: eval)
  have late: "map_option client (accountData (step restartedSession (EndOfSession 0 EndSig)) ''a'')
      = Some None"
    "map_option status (accountData (step restartedSession (EndOfSession 0 EndSig)) ''a'')
      = Some Offline"
    "timers (step restartedSession (EndOfSession 0 EndSig)) = [1 \<mapsto> (''a'', 7500)]"
    "liveFor (step restartedSession (EndOfSession 0 EndSig)) ''a'' = [1]"
    unfolding restartedSession_def by (simp_all add: eval liveFor_def reconnectDelay_def)
  show ?thesis
    using logs2 before late by simp
qed

text \<open>
  C2, amended. For a session whose \<open>disconnectHandled\<close> guard is false, the first
  end signal sets the state to Error or Offline, releases the handle, sets the
  guard and logs the end reason; when auto-reconnect is on and no manual stop was
  requested it also arms exactly one timer, after clearing the one in
  \<open>reconnectTimer\<close>, and the scheduler logs one more entry. An end signal that
  finds the guard set changes nothing at all; so the signals that directly follow
  the first one, however many and in whatever order, leave the world as the first
  one left it. A signal that arrives after \<open>startBot\<close> or the spawn handler has
  reset the guard is not covered.
\<close>

theorem end_signal_once:
  assumes "accountData w email = Some b" and "\<not> disconnectHandled b"
  shows "(\<exists>b1. accountData (onEndSignal w email s1) email = Some b1
            \<and> status b1 = (if endIsError s1 then Error else Offline)
            \<and> client b1 = None \<and> disconnectHandled b1
            \<and> logs b1 =
                (if \<not> manualDisconnect b \<and> autoReconnect b
                 then pushLog (pushLog (logs b) (LogSessionEnd (endIsError s1) (endReason s1)))
                        (LogAutoReconnectIn (reconnectDelay (reconnectAttempts b))
                           (reconnectAttempts b + 1))
                 else pushLog (logs b) (LogSessionEnd (endIsError s1) (endReason s1))))
       \<and> timers (onEndSignal w email s1) =
            (if \<not> manualDisconnect b \<and> autoReconnect b
             then (timers (clearTimeout w (reconnectTimer b)))
                    (nextTimer w \<mapsto> (email, reconnectDelay (reconnectAttempts b)))
             else timers w)
       \<and> onEndSignal (onEndSignal w email s1) email s2 = onEndSignal w email s1
       \<and> (\<forall>ss. foldl (\<lambda>w' s. onEndSignal w' email s) (onEndSignal w email s1) ss
                 = onEndSignal w email s1)
       \<and> (\<forall>w' b' s. accountData w' email = Some b' \<longrightarrow> disconnectHandled b' \<longrightarrow>
                 onEndSignal w' email s = w')"
proof -
  have guarded: "onEndSignal w' email s = w'"
    if "accountData w' email = Some b'" and "disconnectHandled b'" for w' b' s
    unfolding onEndSignal_def by (rule handleSessionEnd_handled [OF that])
  have many: "foldl (\<lambda>w' s. onEndSignal w' email s) w' ss = w'"
    if "accountData w' email = Some b'" and "disconnectHandled b'" for w' b' ss
    by (induction ss) (simp_all add: guarded [OF that])
  let ?e = "endIsError s1" and ?r = "endReason s1"
  let ?b1 = "b\<lparr>disconnectHandled := True, status := (if ?e then Error else Offline),
                client := None, logs := pushLog (logs b) (LogSessionEnd ?e ?r)\<rparr>"
  let ?w1 = "discordNotify
               (w\<lparr>accountData := (accountData w)(email \<mapsto> ?b1),
                  updates := updates w @ [snapshotOf email ?b1, snapshotOf email ?b1]\<rparr>)
               (NoticeSessionEnd ?e email ?r (autoReconnect b \<and> \<not> manualDisconnect b))"
  have first: "onEndSignal w email s1 =
      (if \<not> manualDisconnect b \<and> autoReconnect b then scheduleReconnect ?w1 email else ?w1)"
    unfolding onEndSignal_def using handleSessionEnd_first [OF assms, of ?r ?e]
    by (simp add: Let_def)
  have rec1: "accountData ?w1 email = Some ?b1"
    by (simp add: discordNotify_fields)
  show ?thesis
  proof (cases "\<not> manualDisconnect b \<and> autoReconnect b")
    case True
    then have flags: "\<not> manualDisconnect ?b1" "autoReconnect ?b1" by simp_all
    have w': "onEndSignal w email s1 = scheduleReconnect ?w1 email"
      using first True by simp
    note arms = scheduleReconnect_arms [OF rec1 flags]
    have rec': "\<exists>b1. accountData (onEndSignal w email s1) email = Some b1 \<and> disconnectHandled b1"
      unfolding w' arms by (simp add: Let_def)
    then obtain b' where b': "accountData (onEndSignal w email s1) email = Some b'"
        "disconnectHandled b'" by blast
    have again: "onEndSignal (onEndSignal w email s1) email s2 = onEndSignal w email s1"
      by (rule guarded [OF b'])
    have all: "foldl (\<lambda>w' s. onEndSignal w' email s) (onEndSignal w email s1) ss
        = onEndSignal w email s1" for ss
      by (rule many [OF b'])
    have "(\<exists>b1. accountData (onEndSignal w email s1) email = Some b1
            \<and> status b1 = (if endIsError s1 then Error else Offline)
            \<and> client b1 = None \<and> disconnectHandled b1
            \<and> logs b1 =
                (if \<not> manualDisconnect b \<and> autoReconnect b
                 then pushLog (pushLog (logs b) (LogSessionEnd (endIsError s1) (endReason s1)))
                        (LogAutoReconnectIn (reconnectDelay (reconnectAttempts b))
                           (reconnectAttempts b + 1))
                 else pushLog (logs b) (LogSessionEnd (endIsError s1) (endReason s1))))
       \<and> timers (onEndSignal w email s1) =
            (if \<not> manualDisconnect b \<and> autoReconnect b
             then (timers (clearTimeout w (reconnectTimer b)))
                    (nextTimer w \<mapsto> (email, reconnectDelay (reconnectAttempts b)))
             else timers w)"
      unfolding w' arms using True
      by (simp add: Let_def discordNotify_fields clearTimeout_def split: option.splits)
    with again all guarded show ?thesis by blast
  next
    case False
    have w': "onEndSignal w email s1 = ?w1"
      using first False by auto
    have handled: "disconnectHandled ?b1" by simp
    have again: "onEndSignal ?w1 email s2 = ?w1"
      by (rule guarded [OF rec1 handled])
    have all: "foldl (\<lambda>w' s. onEndSignal w' email s) ?w1 ss = ?w1" for ss
      by (rule many [OF rec1 handled])
    have "(\<exists>b1. accountData ?w1 email = Some b1
            \<and> status b1 = (if endIsError s1 then Error else Offline)
            \<and> client b1 = None \<and> disconnectHandled b1
            \<and> logs b1 =
                (if \<not> manualDisconnect b \<and> autoReconnect b
                 then pushLog (pushLog (logs b) (LogSessionEnd (endIsError s1) (endReason s1)))
                        (LogAutoReconnectIn (reconnectDelay (reconnectAttempts b))
                           (reconnectAttempts b + 1))
                 else pushLog (logs b) (LogSessionEnd (endIsError s1) (endReason s1))))
       \<and> timers ?w1 =
            (if \<not> manualDisconnect b \<and> autoReconnect b
             then (timers (clearTimeout w (reconnectTimer b)))
                    (nextTimer w \<mapsto> (email, reconnectDelay (reconnectAttempts b)))
             else timers w)"
      using False by (auto simp: discordNotify_fields)
    with again all guarded show ?thesis unfolding w' by blast
  qed
qed

theorem end_signal_once_witness:
  "timers (onEndSignal onlineSession ''a'' (CloseSig False)) = [0 \<mapsto> (''a'', 5000)]
 \<and> onEndSignal (onEndSignal onlineSession ''a'' (CloseSig False)) ''a'' (CloseSig True)
     = onEndSignal onlineSession ''a'' (CloseSig False)
 \<and> foldl (\<lambda>w' s. onEndSignal w' ''a'' s) (onEndSignal onlineSession ''a'' (CloseSig False))
       [ErrorSig ''reset'', EndSig, DisconnectPacket None, CloseSig True]
     = onEndSignal onlineSession ''a'' (CloseSig False)"
proof -
  have fresh: "timers onlineSession = Map.empty" "nextTimer onlineSession = 0"
    unfolding onlineSession_def by (simp_all add: eval)
  have not_handled:
    "\<not> disconnectHandled
        \<lparr>client = Some 0, status = Online, logs = [LogStarting, LogSpawned, LogSentHome],
         autoReconnect = True, reconnectAttempts = 0, manualDisconnect = False,
         deviceCode = None, reconnectTimer = None, disconnectHandled = False\<rparr>"
    by simp
  note inst = end_signal_once [OF onlineSession_record not_handled,
      of "CloseSig False" "CloseSig True"]
  from inst have many: "foldl (\<lambda>w' s. onEndSignal w' ''a'' s)
        (onEndSignal onlineSession ''a'' (CloseSig False))
        [ErrorSig ''reset'', EndSig, DisconnectPacket None, CloseSig True]
      = onEndSignal onlineSession ''a'' (CloseSig False)"
    by blast
  from inst have first: "timers (onEndSignal onlineSession ''a'' (CloseSig False))
      = [0 \<mapsto> (''a'', 5000)]"
    by (simp add: fresh clearTimeout_def reconnectDelay_values)
  from inst have again: "onEndSignal (onEndSignal onlineSession ''a'' (CloseSig False)) ''a''
        (CloseSig True) = onEndSignal onlineSession ''a'' (CloseSig False)"
    by blast
  show ?thesis
    using first again many by simp
qed



text \<open>
  C3, as stated, fails: after the server closed the connection a reconnect timer
  is armed, and \<open>/set-reconnect\<close> with \<open>enabled = false\<close> then leaves
  \<open>reconnectTimer\<close> set and the timer armed while auto-reconnect is off.
\<close>

theorem timer_predicate_counterexample:
  "timerInv droppedSession ''a''
 \<and> \<not> timerInv (snd (httpSetReconnect droppedSession ''a'' False)) ''a''
 \<and> map_option reconnectTimer (accountData (snd (httpSetReconnect droppedSession ''a'' False)) ''a'')
     = Some (Some 0)
 \<and> timers (snd (httpSetReconnect droppedSession ''a'' False)) 0 = Some (''a'', 5000)
 \<and> map_option autoReconnect (accountData (snd (httpSetReconnect droppedSession ''a'' False)) ''a'')
     = Some False"
  unfolding setReconnect_world [OF droppedSession_record]
  by (simp add: timerInv_def timerPending_def droppedSession_record droppedSession_timers)

text \<open>
  C3, amended. In every reachable world the predicate "a pending reconnect timer
  only in state Offline or Error with auto-reconnect on and no manual stop" is
  kept by an end signal, by both disconnect commands, by switching auto-reconnect
  on, by the firing of a timer of the account, and by a start made while no timer
  of the account is pending.
\<close>

theorem timer_predicate_preserved:
  assumes "w = run (initWorld ch) evs" and "timerInv w email"
  shows "timerInv (onEndSignal w email s) email
       \<and> timerInv (snd (httpDisconnect w email throws)) email
       \<and> timerInv (snd (discordDisconnect w email throws)) email
       \<and> timerInv (snd (httpSetReconnect w email True)) email
       \<and> timerInv (snd (discordReconnect w email True)) email
       \<and> (\<forall>b. accountData w email = Some b \<longrightarrow> \<not> autoReconnect b \<longrightarrow>
             timerInv (snd (httpToggleReconnect w email)) email)
       \<and> (\<forall>t d. timers w t = Some (email, d) \<longrightarrow> timerInv (fireTimer w t thrown) email)
       \<and> (\<not> timerPending w email \<longrightarrow>
             timerInv (startBot w email r thrown) email
           \<and> timerInv (snd (httpConnect w email thrown)) email
           \<and> timerInv (snd (discordConnect w email thrown)) email)"
proof -
  have own: "timersOwned w"
    unfolding assms(1) by (rule timersOwned_run [OF timersOwned_init])
  have start: "timerInv (startBot w email r' thrown) email" if "\<not> timerPending w email" for r'
    by (rule timerInv_startBot [OF that])
  have connect: "timerInv (snd (httpConnect w email thrown)) email"
      "timerInv (snd (discordConnect w email thrown)) email" if "\<not> timerPending w email"
    using assms(2) start [OF that, of False]
    by (auto simp: httpConnect_def discordConnect_def split: option.splits)
  show ?thesis
    using timerInv_handleSessionEnd [OF assms(2)] timerInv_stop [of w email throws]
      timerInv_enable [OF assms(2)] timerInv_fireTimer [OF own] start connect
    by (simp add: onEndSignal_def)
qed

theorem timer_predicate_preserved_witness:
  "timerPending droppedSession ''a''
 \<and> timerInv droppedSession ''a''
 \<and> timerInv (onEndSignal droppedSession ''a'' EndSig) ''a''
 \<and> timerInv (snd (httpDisconnect droppedSession ''a'' False)) ''a''
 \<and> timerInv (fireTimer droppedSession 0 None) ''a''
 \<and> timerInv (startBot (initWorld False) ''a'' False (Some ''refused'')) ''a''"
proof -
  have e0: "initWorld False = run (initWorld False) []"
    by (simp add: run_def)
  have pending: "timerPending droppedSession ''a''"
    by (simp add: timerPending_def droppedSession_record droppedSession_timers)
  have holds: "timerInv droppedSession ''a''"
    by (simp add: timerInv_def droppedSession_record)
  have none: "\<not> timerPending (initWorld False) ''a''" "timerInv (initWorld False) ''a''"
    by (simp_all add: timerInv_def timerPending_def initWorld_def)
  show ?thesis
    using timer_predicate_preserved [OF droppedSession_def holds, of EndSig False None]
      timer_predicate_preserved [OF e0 none(2), where r = False and thrown = "Some ''refused''"]
    by (simp add: pending holds none droppedSession_timers)
qed

text \<open>
  C1. At most one live client per account does not hold of the code. A session is
  started, the server closes the connection and a reconnect timer is armed; the
  operator connects again before the timer fires, which is accepted because the
  session is Offline, and \<open>startBot\<close> leaves the timer armed. When the timer fires,
  \<open>startBot\<close> creates a further client and overwrites \<open>bot.client\<close>: clients 1 and
  2 are both live for the account, and the session refers to client 2 only.
\<close>

theorem timer_fires_after_manual_start:
  "liveFor (run (initWorld False)
      [HttpConnect ''a'' None, EndOfSession 0 (CloseSig False),
       HttpConnect ''a'' None, TimerFires 0 None]) ''a'' = [1, 2]
 \<and> map_option client (accountData (run (initWorld False)
      [HttpConnect ''a'' None, EndOfSession 0 (CloseSig False),
       HttpConnect ''a'' None, TimerFires 0 None]) ''a'') = Some (Some 2)"
  by (simp add: eval liveFor_def)

end
